theory Spec2Isabelle
  imports Complex_Main
begin

section \<open>JavaScript values\<close>

text \<open>
  The client is TypeScript running on a JavaScript engine.  A JavaScript number is an IEEE
  double: a finite value (a real number here), \<open>NaN\<close>, or one of the two infinities.
  Every arithmetic operation computes the exact result and rounds it to the nearest double,
  a tie going to the even significand; a result of magnitude \<open>2 ^ 1024\<close> or more becomes
  an infinity.  The model has one zero.

  A JavaScript string is a sequence of UTF-16 code units, modelled as a list of naturals.
\<close>

datatype jsnum = NaN | NegInf | Fin real | PosInf

type_synonym ustring = "nat list"

definition js :: "string \<Rightarrow> ustring" where
  "js s = map of_char s"

datatype jsval = JUndefined | JNull | JBool bool | JNum jsnum | JStr ustring

text \<open>
  Rounding to a double.  The binary exponent of a positive real is the \<open>L\<close> with
  \<open>2 ^ L \<le> a < 2 ^ (L + 1)\<close>; a double has 53 significant bits, so its last bit weighs
  \<open>2 ^ (L - 52)\<close>, and \<open>2 ^ (- 1074)\<close> below the normal range.
\<close>

fun bit_length :: "nat \<Rightarrow> nat" where
  "bit_length n = (if n = 0 then 0 else Suc (bit_length (n div 2)))"

declare bit_length.simps [simp del]

definition scale2 :: "real \<Rightarrow> int \<Rightarrow> real" where
  "scale2 a e = (if 0 \<le> e then a * 2 ^ nat e else a / 2 ^ nat (- e))"

definition round_half_even :: "real \<Rightarrow> int" where
  "round_half_even m =
     (let f = \<lfloor>m\<rfloor>; d = m - of_int f in
      if d < 1 / 2 then f else if 1 / 2 < d then f + 1 else if even f then f else f + 1)"

definition binary_exponent :: "real \<Rightarrow> int" where
  "binary_exponent a =
     (if 1 \<le> a then int (bit_length (nat \<lfloor>a\<rfloor>)) - 1
      else - int (bit_length (nat \<lceil>1 / a\<rceil> - 1)))"

definition ulp_exponent :: "real \<Rightarrow> int" where
  "ulp_exponent a = max (binary_exponent a) (- 1022) - 52"

definition round_to_ulp :: "real \<Rightarrow> real" where
  "round_to_ulp a =
     (let e = ulp_exponent a in scale2 (of_int (round_half_even (scale2 a (- e)))) e)"

definition to_double :: "real \<Rightarrow> jsnum" where
  "to_double x =
     (if x = 0 then Fin 0
      else
        let r = round_to_ulp \<bar>x\<bar>
        in if 2 ^ 1024 \<le> r then (if x < 0 then NegInf else PosInf)
           else Fin (if x < 0 then - r else r))"

fun sign_of :: "jsnum \<Rightarrow> int" where
  "sign_of NaN = 0"
| "sign_of NegInf = - 1"
| "sign_of PosInf = 1"
| "sign_of (Fin x) = (if x < 0 then - 1 else if x = 0 then 0 else 1)"

definition inf_of_sign :: "int \<Rightarrow> jsnum" where
  "inf_of_sign s = (if s = 0 then NaN else if 0 < s then PosInf else NegInf)"

text \<open>The operators \<open>*\<close>, \<open>/\<close>, \<open>+\<close>, \<open>-\<close> and \<open>>\<close> on numbers.\<close>

fun js_mul :: "jsnum \<Rightarrow> jsnum \<Rightarrow> jsnum" where
  "js_mul NaN b = NaN"
| "js_mul a NaN = NaN"
| "js_mul (Fin x) (Fin y) = to_double (x * y)"
| "js_mul a b = inf_of_sign (sign_of a * sign_of b)"

fun js_div :: "jsnum \<Rightarrow> jsnum \<Rightarrow> jsnum" where
  "js_div NaN b = NaN"
| "js_div a NaN = NaN"
| "js_div (Fin x) (Fin y) =
     (if y = 0 then inf_of_sign (sign_of (Fin x)) else to_double (x / y))"
| "js_div (Fin x) b = Fin 0"
| "js_div a (Fin y) = (if y < 0 then inf_of_sign (- sign_of a) else a)"
| "js_div a b = NaN"

fun js_add :: "jsnum \<Rightarrow> jsnum \<Rightarrow> jsnum" where
  "js_add NaN b = NaN"
| "js_add a NaN = NaN"
| "js_add (Fin x) (Fin y) = to_double (x + y)"
| "js_add (Fin x) b = b"
| "js_add a (Fin y) = a"
| "js_add a b = (if a = b then a else NaN)"

fun js_neg :: "jsnum \<Rightarrow> jsnum" where
  "js_neg NaN = NaN"
| "js_neg NegInf = PosInf"
| "js_neg PosInf = NegInf"
| "js_neg (Fin x) = Fin (- x)"

definition js_sub :: "jsnum \<Rightarrow> jsnum \<Rightarrow> jsnum" where
  "js_sub a b = js_add a (js_neg b)"

fun js_gt :: "jsnum \<Rightarrow> jsnum \<Rightarrow> bool" where
  "js_gt NaN b = False"
| "js_gt a NaN = False"
| "js_gt (Fin x) (Fin y) = (y < x)"
| "js_gt PosInf b = (b \<noteq> PosInf)"
| "js_gt a NegInf = (a \<noteq> NegInf)"
| "js_gt a b = False"

definition js_le :: "jsnum \<Rightarrow> jsnum \<Rightarrow> bool" where
  "js_le a b = (a \<noteq> NaN \<and> b \<noteq> NaN \<and> \<not> js_gt a b)"

text \<open>A number is truthy unless it is zero or \<open>NaN\<close>.\<close>

fun truthy_num :: "jsnum \<Rightarrow> bool" where
  "truthy_num NaN = False"
| "truthy_num (Fin x) = (x \<noteq> 0)"
| "truthy_num a = True"

text \<open>
  \<open>Math.round\<close>: the nearest integer, a tie going up.  The result is exact: the nearest
  integer of a double is a double.
\<close>

fun Math_round :: "jsnum \<Rightarrow> jsnum" where
  "Math_round (Fin x) = Fin (of_int \<lfloor>x + 1 / 2\<rfloor>)"
| "Math_round a = a"

section \<open>Strings of the engine\<close>

text \<open>
  \<open>trim\<close> removes the white space and line terminators of ECMAScript at both ends.
\<close>

definition ws_units :: "nat list" where
  "ws_units = [0x9, 0xA, 0xB, 0xC, 0xD, 0x20, 0xA0, 0x1680, 0x2028, 0x2029, 0x202F, 0x205F,
               0x3000, 0xFEFF]"

definition is_ws :: "nat \<Rightarrow> bool" where
  "is_ws c = (c \<in> set ws_units \<or> (0x2000 \<le> c \<and> c \<le> 0x200A))"

definition trim :: "ustring \<Rightarrow> ustring" where
  "trim s = rev (dropWhile is_ws (rev (dropWhile is_ws s)))"

text \<open>
  \<open>toLowerCase\<close> and \<open>normalize("NFD")\<close> follow the Unicode tables for the code units
  below \<open>U+0100\<close> (Basic Latin and Latin-1 Supplement, the alphabet of the Portuguese food
  table) and leave every other code unit as it is.
\<close>

definition lower_unit :: "nat \<Rightarrow> nat" where
  "lower_unit c = (if (0x41 \<le> c \<and> c \<le> 0x5A) \<or> (0xC0 \<le> c \<and> c \<le> 0xDE \<and> c \<noteq> 0xD7)
                   then c + 0x20 else c)"

definition toLowerCase :: "ustring \<Rightarrow> ustring" where
  "toLowerCase s = map lower_unit s"

definition nfd_table :: "(nat \<times> ustring) list" where
  "nfd_table =
    [(0xC0, [0x41, 0x300]), (0xC1, [0x41, 0x301]), (0xC2, [0x41, 0x302]), (0xC3, [0x41, 0x303]),
     (0xC4, [0x41, 0x308]), (0xC5, [0x41, 0x30A]), (0xC7, [0x43, 0x327]), (0xC8, [0x45, 0x300]),
     (0xC9, [0x45, 0x301]), (0xCA, [0x45, 0x302]), (0xCB, [0x45, 0x308]), (0xCC, [0x49, 0x300]),
     (0xCD, [0x49, 0x301]), (0xCE, [0x49, 0x302]), (0xCF, [0x49, 0x308]), (0xD1, [0x4E, 0x303]),
     (0xD2, [0x4F, 0x300]), (0xD3, [0x4F, 0x301]), (0xD4, [0x4F, 0x302]), (0xD5, [0x4F, 0x303]),
     (0xD6, [0x4F, 0x308]), (0xD9, [0x55, 0x300]), (0xDA, [0x55, 0x301]), (0xDB, [0x55, 0x302]),
     (0xDC, [0x55, 0x308]), (0xDD, [0x59, 0x301]),
     (0xE0, [0x61, 0x300]), (0xE1, [0x61, 0x301]), (0xE2, [0x61, 0x302]), (0xE3, [0x61, 0x303]),
     (0xE4, [0x61, 0x308]), (0xE5, [0x61, 0x30A]), (0xE7, [0x63, 0x327]), (0xE8, [0x65, 0x300]),
     (0xE9, [0x65, 0x301]), (0xEA, [0x65, 0x302]), (0xEB, [0x65, 0x308]), (0xEC, [0x69, 0x300]),
     (0xED, [0x69, 0x301]), (0xEE, [0x69, 0x302]), (0xEF, [0x69, 0x308]), (0xF1, [0x6E, 0x303]),
     (0xF2, [0x6F, 0x300]), (0xF3, [0x6F, 0x301]), (0xF4, [0x6F, 0x302]), (0xF5, [0x6F, 0x303]),
     (0xF6, [0x6F, 0x308]), (0xF9, [0x75, 0x300]), (0xFA, [0x75, 0x301]), (0xFB, [0x75, 0x302]),
     (0xFC, [0x75, 0x308]), (0xFD, [0x79, 0x301]), (0xFF, [0x79, 0x308])]"

definition nfd_unit :: "nat \<Rightarrow> ustring" where
  "nfd_unit c = (case map_of nfd_table c of Some d \<Rightarrow> d | None \<Rightarrow> [c])"

definition normalizeNFD :: "ustring \<Rightarrow> ustring" where
  "normalizeNFD s = concat (map nfd_unit s)"

text \<open>The removal of the combining marks \<open>U+0300\<close> to \<open>U+036F\<close>.\<close>

definition strip_marks :: "ustring \<Rightarrow> ustring" where
  "strip_marks s = filter (\<lambda>c. \<not> (0x300 \<le> c \<and> c \<le> 0x36F)) s"

text \<open>\<open>String.prototype.includes\<close>: the argument occurs as a contiguous run.\<close>

fun starts_with :: "ustring \<Rightarrow> ustring \<Rightarrow> bool" where
  "starts_with xs [] = True"
| "starts_with [] (q # qs) = False"
| "starts_with (x # xs) (q # qs) = (x = q \<and> starts_with xs qs)"

fun includes_str :: "ustring \<Rightarrow> ustring \<Rightarrow> bool" where
  "includes_str [] q = (q = [])"
| "includes_str (x # xs) q = (starts_with (x # xs) q \<or> includes_str xs q)"

text \<open>The decimal digits of an array index or a clock reading in a template literal.\<close>

fun show_nat :: "nat \<Rightarrow> ustring" where
  "show_nat n = (if n < 10 then [0x30 + n] else show_nat (n div 10) @ [0x30 + n mod 10])"

declare show_nat.simps [simp del]

section \<open>Conversion to a number\<close>

text \<open>
  \<open>Number(v)\<close> on the primitive values.  A string is trimmed; the empty string is zero;
  then come the hexadecimal, octal and binary literals, \<open>Infinity\<close> with an optional sign,
  and the decimal literals with an optional sign, fraction and exponent.  Anything else is
  \<open>NaN\<close>.  The value of a literal is rounded to a double.
\<close>

definition is_digit :: "nat \<Rightarrow> bool" where
  "is_digit c = (0x30 \<le> c \<and> c \<le> 0x39)"

definition digit_of :: "nat \<Rightarrow> nat option" where
  "digit_of c =
     (if 0x30 \<le> c \<and> c \<le> 0x39 then Some (c - 0x30)
      else if 0x61 \<le> c \<and> c \<le> 0x66 then Some (c - 0x61 + 10)
      else if 0x41 \<le> c \<and> c \<le> 0x46 then Some (c - 0x41 + 10)
      else None)"

fun radix_value :: "nat \<Rightarrow> nat \<Rightarrow> ustring \<Rightarrow> nat option" where
  "radix_value b acc [] = Some acc"
| "radix_value b acc (c # cs) =
     (case digit_of c of
        None \<Rightarrow> None
      | Some d \<Rightarrow> if d < b then radix_value b (acc * b + d) cs else None)"

definition parse_radix :: "nat \<Rightarrow> ustring \<Rightarrow> jsnum" where
  "parse_radix b ds =
     (if ds = [] then NaN
      else case radix_value b 0 ds of None \<Rightarrow> NaN | Some n \<Rightarrow> to_double (of_nat n))"

definition digits_value :: "ustring \<Rightarrow> nat" where
  "digits_value ds = foldl (\<lambda>acc c. acc * 10 + (c - 0x30)) 0 ds"

definition split_sign :: "ustring \<Rightarrow> bool \<times> ustring" where
  "split_sign s =
     (case s of
        [] \<Rightarrow> (False, [])
      | c # r \<Rightarrow> if c = 0x2B then (False, r) else if c = 0x2D then (True, r) else (False, s))"

definition parse_exponent :: "ustring \<Rightarrow> int option" where
  "parse_exponent s =
     (case s of
        [] \<Rightarrow> Some 0
      | c # r \<Rightarrow>
          if c = 0x65 \<or> c = 0x45 then
            (let (neg, ds) = split_sign r in
             if ds \<noteq> [] \<and> list_all is_digit ds
             then Some (if neg then - int (digits_value ds) else int (digits_value ds))
             else None)
          else None)"

definition scale10 :: "real \<Rightarrow> int \<Rightarrow> real" where
  "scale10 m e = (if 0 \<le> e then m * 10 ^ nat e else m / 10 ^ nat (- e))"

definition StrDecimalLiteral :: "ustring \<Rightarrow> jsnum" where
  "StrDecimalLiteral s =
     (let (neg, r) = split_sign s in
      if r = js ''Infinity'' then (if neg then NegInf else PosInf)
      else
        let ip = takeWhile is_digit r;
            r1 = dropWhile is_digit r;
            (fp, r2) = (case r1 of
                          [] \<Rightarrow> ([], [])
                        | c # r' \<Rightarrow> if c = 0x2E
                                    then (takeWhile is_digit r', dropWhile is_digit r')
                                    else ([], r1))
        in if ip = [] \<and> fp = [] then NaN
           else case parse_exponent r2 of
                  None \<Rightarrow> NaN
                | Some e \<Rightarrow>
                    (let m = scale10 (of_nat (digits_value (ip @ fp))) (e - int (length fp))
                     in to_double (if neg then - m else m)))"

definition StringToNumber :: "ustring \<Rightarrow> jsnum" where
  "StringToNumber s =
     (let t = trim s in
      case t of
        [] \<Rightarrow> Fin 0
      | [c] \<Rightarrow> StrDecimalLiteral t
      | c # x # r \<Rightarrow>
          if c = 0x30 \<and> (x = 0x78 \<or> x = 0x58) then parse_radix 16 r
          else if c = 0x30 \<and> (x = 0x6F \<or> x = 0x4F) then parse_radix 8 r
          else if c = 0x30 \<and> (x = 0x62 \<or> x = 0x42) then parse_radix 2 r
          else StrDecimalLiteral t)"

fun Number :: "jsval \<Rightarrow> jsnum" where
  "Number JUndefined = NaN"
| "Number JNull = Fin 0"
| "Number (JBool b) = Fin (if b then 1 else 0)"
| "Number (JNum n) = n"
| "Number (JStr s) = StringToNumber s"

text \<open>The expression \<open>Number(x) || 0\<close> that guards every numeric field.\<close>

definition Number_or_0 :: "jsval \<Rightarrow> jsnum" where
  "Number_or_0 x = (let n = Number x in if truthy_num n then n else Fin 0)"

section \<open>The canonical model (types.ts)\<close>

datatype MealType = breakfast | lunch | snack | dinner | supper | other

datatype Source = vision | manual

record SavedMealItem =
  smi_id :: ustring
  smi_name :: ustring
  smi_grams :: jsnum
  smi_kcalPer100g :: jsnum
  smi_calories :: jsnum
  smi_confidence :: jsval
  smi_source :: Source

record SavedMeal =
  sm_id :: ustring
  sm_userId :: ustring
  sm_mealType :: MealType
  sm_dateTime :: ustring
  sm_totalCalories :: jsnum
  sm_photoUrl :: "ustring option"
  sm_createdAt :: ustring
  sm_photoDataUrl :: "ustring option"
  sm_items :: "SavedMealItem list"

section \<open>Dates of the engine\<close>

text \<open>
  A \<open>Date\<close> object is its time value in milliseconds since the epoch, or \<open>None\<close> for an
  invalid date.  How the engine parses a date string and prints a time value in ISO format
  is a parameter of the model.
\<close>

datatype error = RangeError | TypeError

record DateLib =
  Date_parse :: "ustring \<Rightarrow> int option"
  toISOString :: "int \<Rightarrow> ustring"

definition TimeClip :: "jsnum \<Rightarrow> int option" where
  "TimeClip n =
     (case n of
        Fin x \<Rightarrow> if \<bar>x\<bar> \<le> 8640000000000000
                 then Some (if 0 \<le> x then \<lfloor>x\<rfloor> else \<lceil>x\<rceil>) else None
      | _ \<Rightarrow> None)"

fun new_Date :: "DateLib \<Rightarrow> jsval \<Rightarrow> int option" where
  "new_Date lib (JStr s) = Date_parse lib s"
| "new_Date lib v = TimeClip (Number v)"

text \<open>\<open>toISOString\<close> throws a \<open>RangeError\<close> on an invalid date.\<close>

definition Date_toISOString :: "DateLib \<Rightarrow> int option \<Rightarrow> error + ustring" where
  "Date_toISOString lib d = (case d of None \<Rightarrow> Inl RangeError | Some t \<Rightarrow> Inr (toISOString lib t))"

definition getTime :: "int option \<Rightarrow> jsnum" where
  "getTime d = (case d of None \<Rightarrow> NaN | Some t \<Rightarrow> Fin (of_int t))"

text \<open>The operator \<open>??\<close>: the right operand when the left one is \<open>null\<close> or \<open>undefined\<close>.\<close>

definition nullish_or :: "jsval \<Rightarrow> jsval \<Rightarrow> jsval" where
  "nullish_or a b = (if a = JUndefined \<or> a = JNull then b else a)"

section \<open>Reconciler (MealsHistoryScreen.tsx)\<close>

definition getItemCalories :: "jsnum \<Rightarrow> jsnum \<Rightarrow> jsnum \<Rightarrow> jsnum" where
  "getItemCalories kcalPer100g grams calories =
     (if truthy_num calories \<and> js_gt calories (Fin 0) then Math_round calories
      else Math_round (js_div (js_mul kcalPer100g grams) (Fin 100)))"

definition getMealTotalCalories :: "SavedMeal \<Rightarrow> jsnum" where
  "getMealTotalCalories meal =
     (if truthy_num (sm_totalCalories meal) \<and> js_gt (sm_totalCalories meal) (Fin 0)
      then Math_round (sm_totalCalories meal)
      else foldl (\<lambda>acc it. js_add acc
                   (getItemCalories (smi_kcalPer100g it) (smi_grams it) (smi_calories it)))
             (Fin 0) (sm_items meal))"

text \<open>
  The sum of the spec's words: the items' reconciled calories added one after the other,
  from zero.
\<close>

fun sum_from :: "jsnum \<Rightarrow> SavedMealItem list \<Rightarrow> jsnum" where
  "sum_from s [] = s"
| "sum_from s (it # its) =
     sum_from (js_add s (getItemCalories (smi_kcalPer100g it) (smi_grams it) (smi_calories it)))
       its"

definition sum_itemCalories :: "SavedMealItem list \<Rightarrow> jsnum" where
  "sum_itemCalories its = sum_from (Fin 0) its"

section \<open>Payload normalizer\<close>

text \<open>
  The records of the API, as the two screens declare them.  The numeric fields, the
  confidence and the two dates are read as whatever primitive value the response holds;
  \<open>imagePath\<close> is a string or absent (\<open>null\<close> and \<open>undefined\<close> behave alike under
  both \<open>? :\<close> and \<open>??\<close>); \<open>items\<close> may be absent.  The type of \<open>type\<close> is a string in the
  history screen and a \<open>MealType\<close> in the analyze screen.
\<close>

record MealItemApi =
  mia_id :: ustring
  mia_name :: ustring
  mia_grams :: jsval
  mia_caloriesPer100g :: jsval
  mia_calories :: jsval
  mia_confidence :: jsval
  mia_source :: ustring

record 'ty MealApi =
  ma_id :: ustring
  ma_userId :: ustring
  ma_type :: 'ty
  ma_takenAt :: jsval
  ma_createdAt :: jsval
  ma_totalCalories :: jsval
  ma_imagePath :: "ustring option"
  ma_items :: "MealItemApi list option"

text \<open>\<open>API_BASE_URL\<close>: the configured variable, or the local default when it is unset or empty.\<close>

definition API_BASE_URL :: "ustring option \<Rightarrow> ustring" where
  "API_BASE_URL env =
     (case env of
        None \<Rightarrow> js ''http://localhost:3000''
      | Some u \<Rightarrow> if u = [] then js ''http://localhost:3000'' else u)"

definition normalizeMealType :: "ustring \<Rightarrow> MealType" where
  "normalizeMealType v =
     (let s = toLowerCase (if v = [] then [] else v) in
      if s = js ''breakfast'' then breakfast
      else if s = js ''lunch'' then lunch
      else if s = js ''snack'' then snack
      else if s = js ''dinner'' then dinner
      else if s = js ''supper'' then supper
      else other)"

text \<open>
  The expression both screens compute for \<open>source\<close>:
  \<open>String(it.source).toLowerCase() === "vision" || it.source === "VISION"\<close>.
\<close>

definition normalizeSource :: "ustring \<Rightarrow> Source" where
  "normalizeSource raw =
     (if toLowerCase raw = js ''vision'' \<or> raw = js ''VISION'' then vision else manual)"

text \<open>The item mapping, the same object literal in both screens.\<close>

definition mapItemApi :: "MealItemApi \<Rightarrow> SavedMealItem" where
  "mapItemApi it =
     \<lparr> smi_id = mia_id it,
       smi_name = mia_name it,
       smi_grams = Number_or_0 (mia_grams it),
       smi_kcalPer100g = Number_or_0 (mia_caloriesPer100g it),
       smi_calories = Number_or_0 (mia_calories it),
       smi_confidence = nullish_or (mia_confidence it) JUndefined,
       smi_source = normalizeSource (mia_source it) \<rparr>"

definition mapApiMealToSavedMeal ::
  "ustring option \<Rightarrow> DateLib \<Rightarrow> ustring MealApi \<Rightarrow> error + SavedMeal" where
  "mapApiMealToSavedMeal env lib m =
     (let items = map mapItemApi (case ma_items m of None \<Rightarrow> [] | Some its \<Rightarrow> its) in
      case Date_toISOString lib (new_Date lib (ma_takenAt m)) of
        Inl e \<Rightarrow> Inl e
      | Inr dateTime \<Rightarrow>
          (case Date_toISOString lib (new_Date lib (nullish_or (ma_createdAt m) (ma_takenAt m))) of
             Inl e \<Rightarrow> Inl e
           | Inr createdAt \<Rightarrow>
               Inr \<lparr> sm_id = ma_id m,
                     sm_userId = ma_userId m,
                     sm_mealType = normalizeMealType (ma_type m),
                     sm_dateTime = dateTime,
                     sm_totalCalories = Number_or_0 (ma_totalCalories m),
                     sm_photoUrl = (case ma_imagePath m of
                                      None \<Rightarrow> None
                                    | Some p \<Rightarrow> if p = [] then None
                                                else Some (API_BASE_URL env @ p)),
                     sm_createdAt = createdAt,
                     sm_photoDataUrl = None,
                     sm_items = items \<rparr>))"

text \<open>
  The part of \<open>handleSaveMealClick\<close> that turns the response of the save request into the
  meal handed to \<open>onSaveMeal\<close>.  Reading \<open>saved.items.map\<close> of absent items is a
  \<open>TypeError\<close>.
\<close>

definition handleSaveMealClick ::
  "DateLib \<Rightarrow> ustring \<Rightarrow> MealType MealApi \<Rightarrow> error + SavedMeal" where
  "handleSaveMealClick lib previewDataUrl saved =
     (case ma_items saved of
        None \<Rightarrow> Inl TypeError
      | Some its \<Rightarrow>
          (let savedItems = map mapItemApi its in
           case Date_toISOString lib (new_Date lib (ma_takenAt saved)) of
             Inl e \<Rightarrow> Inl e
           | Inr dateTime \<Rightarrow>
               (case Date_toISOString lib
                       (new_Date lib (nullish_or (ma_createdAt saved) (ma_takenAt saved))) of
                  Inl e \<Rightarrow> Inl e
                | Inr createdAt \<Rightarrow>
                    Inr \<lparr> sm_id = ma_id saved,
                          sm_userId = ma_userId saved,
                          sm_mealType = ma_type saved,
                          sm_dateTime = dateTime,
                          sm_totalCalories = Number_or_0 (ma_totalCalories saved),
                          sm_photoUrl = ma_imagePath saved,
                          sm_createdAt = createdAt,
                          sm_photoDataUrl = Some previewDataUrl,
                          sm_items = savedItems \<rparr>)))"

section \<open>History list (loadMealsByDay)\<close>

text \<open>
  \<open>Array.prototype.map\<close> with a callback that may throw: the first exception ends it.
\<close>

fun map_throwing :: "('a \<Rightarrow> error + 'b) \<Rightarrow> 'a list \<Rightarrow> error + 'b list" where
  "map_throwing f [] = Inr []"
| "map_throwing f (x # xs) =
     (case f x of
        Inl e \<Rightarrow> Inl e
      | Inr y \<Rightarrow> (case map_throwing f xs of Inl e \<Rightarrow> Inl e | Inr ys \<Rightarrow> Inr (y # ys)))"

text \<open>
  \<open>Array.prototype.sort\<close> is a stable comparison sort; a comparator value of \<open>NaN\<close> counts
  as zero.  An element moves behind another one only when the comparator is positive.
\<close>

fun sort_insert :: "('a \<Rightarrow> 'a \<Rightarrow> jsnum) \<Rightarrow> 'a \<Rightarrow> 'a list \<Rightarrow> 'a list" where
  "sort_insert cmp x [] = [x]"
| "sort_insert cmp x (y # ys) =
     (if js_gt (cmp x y) (Fin 0) then y # sort_insert cmp x ys else x # y # ys)"

definition Array_sort :: "('a \<Rightarrow> 'a \<Rightarrow> jsnum) \<Rightarrow> 'a list \<Rightarrow> 'a list" where
  "Array_sort cmp xs = foldr (sort_insert cmp) xs []"

text \<open>The effective date of a meal: \<open>new Date(meal.dateTime || meal.createdAt).getTime()\<close>.\<close>

definition effectiveDate :: "DateLib \<Rightarrow> SavedMeal \<Rightarrow> jsnum" where
  "effectiveDate lib meal =
     getTime (new_Date lib (JStr (if sm_dateTime meal \<noteq> [] then sm_dateTime meal
                                  else sm_createdAt meal)))"

definition compareMeals :: "DateLib \<Rightarrow> SavedMeal \<Rightarrow> SavedMeal \<Rightarrow> jsnum" where
  "compareMeals lib a b = js_sub (effectiveDate lib b) (effectiveDate lib a)"

record HistoryState =
  hs_meals :: "SavedMeal list"
  hs_error :: "error option"

text \<open>
  \<open>loadMealsByDay\<close> from the parsed response on: the records are mapped and sorted; an
  exception empties the list and is reported.
\<close>

definition loadMealsByDay ::
  "ustring option \<Rightarrow> DateLib \<Rightarrow> ustring MealApi list \<Rightarrow> HistoryState" where
  "loadMealsByDay env lib data =
     (case map_throwing (mapApiMealToSavedMeal env lib) data of
        Inl e \<Rightarrow> \<lparr> hs_meals = [], hs_error = Some e \<rparr>
      | Inr mapped \<Rightarrow> \<lparr> hs_meals = Array_sort (compareMeals lib) mapped, hs_error = None \<rparr>)"

section \<open>Food reference search (FoodAnalyzeScreen.tsx)\<close>

record Alimento =
  al_id :: nat
  al_description :: ustring
  al_category :: "ustring option"
  al_energy_kcal :: jsval

definition normalizeSearch :: "ustring \<Rightarrow> ustring" where
  "normalizeSearch s = trim (strip_marks (normalizeNFD (toLowerCase s)))"

text \<open>The loop of \<open>filteredFoods\<close>: \<open>rest\<close> is the table from index \<open>i\<close> on.\<close>

fun filteredFoods_loop :: "ustring \<Rightarrow> Alimento list \<Rightarrow> Alimento list \<Rightarrow> Alimento list" where
  "filteredFoods_loop q [] out = out"
| "filteredFoods_loop q (a # rest) out =
     (let hay = normalizeSearch (al_description a);
          out' = (if includes_str hay q then out @ [a] else out)
      in if 50 \<le> length out' then out' else filteredFoods_loop q rest out')"

definition filteredFoods :: "Alimento list \<Rightarrow> ustring \<Rightarrow> Alimento list" where
  "filteredFoods alimentos foodQuery =
     (let q = normalizeSearch foodQuery in
      if q = [] then take 30 alimentos else filteredFoods_loop q alimentos [])"

section \<open>Working item list (FoodAnalyzeScreen.tsx)\<close>

record BackendItem =
  bi_nome :: ustring
  bi_caloriasPorPorcao :: jsnum
  bi_porcaoDescricao :: ustring
  bi_confianca :: jsnum

record FoodItemUI =
  fi_id :: ustring
  fi_nome :: ustring
  fi_quantidadeGramas :: jsnum
  fi_kcalPor100g :: jsnum
  fi_confianca :: "jsnum option"
  fi_origem :: Source

record AnalyzeState =
  as_items :: "FoodItemUI list"
  as_error :: "ustring option"
  as_addModalOpen :: bool
  as_selectedFood :: "Alimento option"
  as_modalGrams :: jsnum

text \<open>The items \<open>handleAnalyze\<close> builds from the response of the vision service.\<close>

definition handleAnalyze :: "BackendItem list \<Rightarrow> FoodItemUI list" where
  "handleAnalyze itens =
     map (\<lambda>(index, item).
            \<lparr> fi_id = js ''vision-'' @ show_nat index,
              fi_nome = bi_nome item,
              fi_quantidadeGramas = Fin 100,
              fi_kcalPor100g = Math_round (bi_caloriasPorPorcao item),
              fi_confianca = Some (bi_confianca item),
              fi_origem = vision \<rparr>)
         (enumerate 0 itens)"

definition calcItemCalories :: "FoodItemUI \<Rightarrow> jsnum" where
  "calcItemCalories it =
     Math_round (js_div (js_mul (fi_kcalPor100g it) (fi_quantidadeGramas it)) (Fin 100))"

definition updateItemQuantity :: "ustring \<Rightarrow> jsnum \<Rightarrow> FoodItemUI list \<Rightarrow> FoodItemUI list" where
  "updateItemQuantity ident grams prev =
     map (\<lambda>it. if fi_id it = ident then it\<lparr>fi_quantidadeGramas := grams\<rparr> else it) prev"

text \<open>The \<open>onChange\<close> handler of an item's grams field, given the text of the field.\<close>

definition onChange_quantidade :: "ustring \<Rightarrow> ustring \<Rightarrow> FoodItemUI list \<Rightarrow> FoodItemUI list" where
  "onChange_quantidade ident text_value prev =
     updateItemQuantity ident (Number_or_0 (JStr text_value)) prev"

text \<open>The \<open>onChange\<close> handler of the modal's grams field.\<close>

definition onChange_modalGrams :: "ustring \<Rightarrow> AnalyzeState \<Rightarrow> AnalyzeState" where
  "onChange_modalGrams text_value s = s\<lparr>as_modalGrams := Number_or_0 (JStr text_value)\<rparr>"

text \<open>\<open>addSelectedFoodToMeal\<close>; \<open>now\<close> is the reading of \<open>Date.now()\<close>.\<close>

definition addSelectedFoodToMeal :: "nat \<Rightarrow> AnalyzeState \<Rightarrow> AnalyzeState" where
  "addSelectedFoodToMeal now s =
     (case as_selectedFood s of
        None \<Rightarrow> s
      | Some selectedFood \<Rightarrow>
          (let kcalPor100g = Math_round (Number_or_0 (al_energy_kcal selectedFood)) in
           if js_le kcalPor100g (Fin 0)
           then s\<lparr>as_error := Some (js ''Esse alimento n'' @ [0xE3] @ js ''o possui calorias v''
                                      @ [0xE1] @ js ''lidas na base.'')\<rparr>
           else
             (let quantidade = (if js_gt (as_modalGrams s) (Fin 0) then as_modalGrams s
                                else Fin 100);
                  newItem = \<lparr> fi_id = js ''manual-'' @ show_nat now,
                              fi_nome = al_description selectedFood,
                              fi_quantidadeGramas = quantidade,
                              fi_kcalPor100g = kcalPor100g,
                              fi_confianca = None,
                              fi_origem = manual \<rparr>
              in s\<lparr>as_items := as_items s @ [newItem], as_addModalOpen := False\<rparr>)))"

text \<open>The invariant of the data model: an item's grams are strictly positive.\<close>

definition grams_positive :: "FoodItemUI \<Rightarrow> bool" where
  "grams_positive it = js_gt (fi_quantidadeGramas it) (Fin 0)"

section \<open>Notions of the specification\<close>

text \<open>
  A raw string matches a lower-case word case-insensitively: they agree unit by unit up to
  the case of the letters \<open>A\<close> to \<open>Z\<close>.
\<close>

definition matches_ignoring_case :: "ustring \<Rightarrow> ustring \<Rightarrow> bool" where
  "matches_ignoring_case raw word =
     list_all2 (\<lambda>c d. c = d \<or> (0x41 \<le> c \<and> c \<le> 0x5A \<and> c + 0x20 = d)) raw word"

text \<open>The spelling of each member of \<open>MealType\<close>.\<close>

fun MealType_name :: "MealType \<Rightarrow> ustring" where
  "MealType_name breakfast = js ''breakfast''"
| "MealType_name lunch = js ''lunch''"
| "MealType_name snack = js ''snack''"
| "MealType_name dinner = js ''dinner''"
| "MealType_name supper = js ''supper''"
| "MealType_name other = js ''other''"

text \<open>A value is a number other than \<open>NaN\<close>.\<close>

fun is_number :: "jsval \<Rightarrow> bool" where
  "is_number (JNum n) = (n \<noteq> NaN)"
| "is_number v = False"

text \<open>
  The dates of an inbound meal are usable: \<open>takenAt\<close> denotes a valid date, and \<open>createdAt\<close>
  is absent or denotes a valid date.
\<close>

definition dates_valid :: "DateLib \<Rightarrow> 'ty MealApi \<Rightarrow> bool" where
  "dates_valid lib m =
     (new_Date lib (ma_takenAt m) \<noteq> None
      \<and> (ma_createdAt m = JUndefined \<or> ma_createdAt m = JNull
         \<or> new_Date lib (ma_createdAt m) \<noteq> None))"

text \<open>The field whose date becomes \<open>createdAt\<close>: \<open>createdAt\<close> itself, or \<open>takenAt\<close> when absent.\<close>

definition createdAt_source :: "'ty MealApi \<Rightarrow> jsval" where
  "createdAt_source m =
     (if ma_createdAt m = JUndefined \<or> ma_createdAt m = JNull then ma_takenAt m
      else ma_createdAt m)"

text \<open>
  The engine reads back the ISO string it prints for the time of \<open>takenAt\<close>, and that
  string is not empty.  ECMAScript guarantees both of every valid time value.
\<close>

definition date_roundtrip :: "DateLib \<Rightarrow> 'ty MealApi \<Rightarrow> bool" where
  "date_roundtrip lib m =
     (\<forall>t. new_Date lib (ma_takenAt m) = Some t \<longrightarrow>
          toISOString lib t \<noteq> [] \<and> Date_parse lib (toISOString lib t) = Some t)"

text \<open>The key by which the history list ends up sorted: the negated effective date.\<close>

definition sort_key_of :: "DateLib \<Rightarrow> SavedMeal \<Rightarrow> real" where
  "sort_key_of lib sm = (case effectiveDate lib sm of Fin x \<Rightarrow> - x | _ \<Rightarrow> 0)"

text \<open>
  A density whose rounded value times one hundred stays below \<open>2 ^ 53\<close>, where the
  product and the quotient of the displayed calories are exact; \<open>NaN\<close> and the infinities
  count as within the range.
\<close>

definition within_exact_range :: "jsnum \<Rightarrow> bool" where
  "within_exact_range c = (case Math_round c of Fin k \<Rightarrow> \<bar>k\<bar> * 100 < 2 ^ 53 | _ \<Rightarrow> True)"

text \<open>An entry matches a query: its normalized description includes the normalized query.\<close>

definition entry_matches :: "ustring \<Rightarrow> Alimento \<Rightarrow> bool" where
  "entry_matches foodQuery a =
     includes_str (normalizeSearch (al_description a)) (normalizeSearch foodQuery)"

section \<open>Sample records\<close>

definition rice :: SavedMealItem where
  "rice = \<lparr> smi_id = js ''i1'', smi_name = js ''arroz'', smi_grams = Fin 150,
            smi_kcalPer100g = Fin 130, smi_calories = Fin 0, smi_confidence = JUndefined,
            smi_source = manual \<rparr>"

definition lunch_meal :: "jsnum \<Rightarrow> SavedMealItem list \<Rightarrow> SavedMeal" where
  "lunch_meal tot its =
     \<lparr> sm_id = js ''m1'', sm_userId = js ''u1'', sm_mealType = lunch,
       sm_dateTime = js ''2024-01-01T12:00:00.000Z'', sm_totalCalories = tot,
       sm_photoUrl = None, sm_createdAt = js ''2024-01-01T12:00:00.000Z'',
       sm_photoDataUrl = None, sm_items = its \<rparr>"

definition inbound_item :: "jsval \<Rightarrow> MealItemApi" where
  "inbound_item conf =
     \<lparr> mia_id = js ''i7'', mia_name = js ''feijao'', mia_grams = JStr (js ''42.5''),
       mia_caloriesPer100g = JStr (js ''200''), mia_calories = JStr (js ''abc''),
       mia_confidence = conf, mia_source = js ''VISION'' \<rparr>"

text \<open>A date library that knows a handful of strings and times.\<close>

definition sample_lib :: DateLib where
  "sample_lib =
     \<lparr> Date_parse = map_of
         [(js ''1970-01-01T00:00:00.000Z'', 0),
          (js ''2024-01-01'', 1704067200000),
          (js ''2024-01-01T00:00:00.000Z'', 1704067200000),
          (js ''2024-01-01T12:00:00.000Z'', 1704110400000),
          (js ''2024-01-02T08:30:00.000Z'', 1704184200000)],
       toISOString = (\<lambda>t. if t = 1704067200000 then js ''2024-01-01T00:00:00.000Z''
                          else if t = 1704110400000 then js ''2024-01-01T12:00:00.000Z''
                          else if t = 1704184200000 then js ''2024-01-02T08:30:00.000Z''
                          else js ''1970-01-01T00:00:00.000Z'') \<rparr>"

definition api_meal :: "'ty \<Rightarrow> ustring \<Rightarrow> jsval \<Rightarrow> jsval \<Rightarrow> ustring option \<Rightarrow> 'ty MealApi" where
  "api_meal ty ident takenAt createdAt imagePath =
     \<lparr> ma_id = ident, ma_userId = js ''u1'', ma_type = ty, ma_takenAt = takenAt,
       ma_createdAt = createdAt, ma_totalCalories = JNum (Fin 500), ma_imagePath = imagePath,
       ma_items = Some [] \<rparr>"

definition day_response :: "ustring MealApi list" where
  "day_response =
     [api_meal (js ''lunch'') (js ''m1'') (JStr (js ''2024-01-01T12:00:00.000Z'')) JUndefined None,
      api_meal (js ''dinner'') (js ''m2'') (JStr (js ''2024-01-02T08:30:00.000Z'')) JUndefined None,
      api_meal (js ''snack'') (js ''m3'') (JStr (js ''2024-01-01T12:00:00.000Z'')) JUndefined None]"

definition pao_de_queijo :: Alimento where
  "pao_de_queijo =
     \<lparr> al_id = 1, al_description = [0x50, 0xE3, 0x6F] @ js '' de queijo'',
       al_category = Some (js ''Cereais''), al_energy_kcal = JNum (Fin 363) \<rparr>"

definition arroz_cozido :: Alimento where
  "arroz_cozido =
     \<lparr> al_id = 2, al_description = js ''Arroz, tipo 1, cozido'',
       al_category = None, al_energy_kcal = JNum (Fin 128) \<rparr>"

definition sample_backend_item :: BackendItem where
  "sample_backend_item =
     \<lparr> bi_nome = js ''arroz'', bi_caloriasPorPorcao = Fin 129.5,
       bi_porcaoDescricao = js ''100 g'', bi_confianca = Fin 0.875 \<rparr>"

definition huge_backend_item :: BackendItem where
  "huge_backend_item =
     \<lparr> bi_nome = js ''arroz'', bi_caloriasPorPorcao = Fin 5925909257642672,
       bi_porcaoDescricao = js ''100 g'', bi_confianca = Fin 0.875 \<rparr>"

section \<open>Properties of the arithmetic\<close>

lemma bit_length_0: "bit_length 0 = 0"
  by (simp add: bit_length.simps)

lemma bit_length_1: "bit_length (Suc 0) = Suc 0"
  by (simp add: bit_length.simps)

lemma bit_length_numeral: "bit_length (numeral k) = Suc (bit_length (numeral k div 2))"
  by (subst bit_length.simps) simp

lemmas double_eval = to_double_def round_to_ulp_def ulp_exponent_def binary_exponent_def scale2_def round_half_even_def Let_def
  bit_length_0 bit_length_1 bit_length_numeral

lemma bit_length_bounds:
  "0 < n \<Longrightarrow> 2 ^ (bit_length n - 1) \<le> n \<and> n < 2 ^ bit_length n"
proof (induction n rule: bit_length.induct)
  case (1 n)
  show ?case
  proof (cases "n div 2 = 0")
    case True
    with "1.prems" have "n = 1" by simp
    then show ?thesis by (simp add: bit_length_1)
  next
    case False
    then have pos: "0 < n div 2" by simp
    have n0: "n \<noteq> 0" using "1.prems" by simp
    from "1.IH" [OF n0 pos]
    have lo: "2 ^ (bit_length (n div 2) - 1) \<le> n div 2"
      and hi: "n div 2 < 2 ^ bit_length (n div 2)" by auto
    have bl: "bit_length n = Suc (bit_length (n div 2))"
      using n0 by (subst bit_length.simps) simp
    have b1: "0 < bit_length (n div 2)"
      using pos by (subst bit_length.simps) simp
    have "2 ^ (bit_length n - 1) = 2 * 2 ^ (bit_length (n div 2) - 1)"
      using bl b1 by (cases "bit_length (n div 2)") simp_all
    also have "\<dots> \<le> 2 * (n div 2)" using lo by simp
    also have "\<dots> \<le> n" by simp
    finally have l: "2 ^ (bit_length n - 1) \<le> n" .
    have "n < 2 * (n div 2) + 2" by presburger
    also have "\<dots> \<le> 2 * 2 ^ bit_length (n div 2)" using hi by simp
    finally have "n < 2 ^ bit_length n" using bl by simp
    with l show ?thesis by blast
  qed
qed

lemma round_half_even_of_int: "round_half_even (of_int z) = z"
  by (simp add: round_half_even_def)

lemma round_half_even_ge_floor: "\<lfloor>m\<rfloor> \<le> round_half_even m"
  by (simp add: round_half_even_def Let_def)

lemma binary_exponent_ge_1:
  assumes "1 \<le> a"
  shows "0 \<le> binary_exponent a" and "2 ^ nat (binary_exponent a) \<le> a"
    and "a < 2 ^ nat (binary_exponent a + 1)"
proof -
  let ?n = "nat \<lfloor>a\<rfloor>"
  have n: "0 < ?n" using assms by simp
  from bit_length_bounds [OF n]
  have lo: "2 ^ (bit_length ?n - 1) \<le> ?n" and hi: "?n < 2 ^ bit_length ?n" by auto
  have b1: "0 < bit_length ?n" using n by (subst bit_length.simps) simp
  have be: "binary_exponent a = int (bit_length ?n) - 1"
    using assms by (simp add: binary_exponent_def)
  show "0 \<le> binary_exponent a" using be b1 by simp
  have e1: "nat (binary_exponent a) = bit_length ?n - 1" using be b1 by simp
  have e2: "nat (binary_exponent a + 1) = bit_length ?n" using be b1 by simp
  have "real (2 ^ (bit_length ?n - 1)) \<le> real ?n" using lo by (rule of_nat_mono)
  also have "real ?n \<le> a" using assms by (simp add: of_nat_nat)
  finally show "2 ^ nat (binary_exponent a) \<le> a" using e1 by simp
  have "\<lfloor>a\<rfloor> < 2 ^ bit_length ?n"
  proof -
    have "int ?n < int (2 ^ bit_length ?n)" using hi by (simp only: of_nat_less_iff)
    then show ?thesis using assms by simp
  qed
  then have "a < of_int (2 ^ bit_length ?n)" by (simp only: floor_less_iff)
  then show "a < 2 ^ nat (binary_exponent a + 1)" using e2 by simp
qed

lemma scale2_pos: "0 < z \<Longrightarrow> 0 < scale2 z e"
  by (simp add: scale2_def)

lemma round_to_ulp_int:
  assumes "a = of_int n" and "1 \<le> a" and "a < 2 ^ 53"
  shows "round_to_ulp a = a"
proof -
  define L where "L = binary_exponent a"
  define e where "e = ulp_exponent a"
  have L0: "0 \<le> L" and Llo: "2 ^ nat L \<le> a"
    using binary_exponent_ge_1 [OF assms(2)] by (simp_all add: L_def)
  have "(2::real) ^ nat L < 2 ^ 53" using Llo assms(3) by simp
  then have "nat L < 53" by (simp only: power_strict_increasing_iff)
  then have e: "e \<le> 0" using L0 by (simp add: e_def ulp_exponent_def L_def [symmetric])
  define k where "k = nat (- e)"
  have m: "scale2 a (- e) = of_int (n * 2 ^ k)"
    using e by (simp add: scale2_def assms(1) k_def)
  have rh: "round_half_even (scale2 a (- e)) = n * 2 ^ k"
    by (simp only: m round_half_even_of_int)
  have "scale2 (of_int (n * 2 ^ k)) e = a"
  proof (cases "e = 0")
    case True
    then show ?thesis by (simp add: scale2_def k_def assms(1))
  next
    case False
    with e have "e < 0" by simp
    then show ?thesis by (simp add: scale2_def k_def assms(1))
  qed
  then have "scale2 (of_int (round_half_even (scale2 a (- e)))) e = a"
    by (simp only: rh)
  then show ?thesis by (simp only: round_to_ulp_def Let_def e_def)
qed

lemma round_to_ulp_pos:
  assumes "1 \<le> a"
  shows "0 < round_to_ulp a"
proof -
  define L where "L = binary_exponent a"
  define e where "e = ulp_exponent a"
  have L0: "0 \<le> L" and Llo: "2 ^ nat L \<le> a"
    using binary_exponent_ge_1 [OF assms] by (simp_all add: L_def)
  have e: "e = L - 52" using L0 by (simp add: e_def ulp_exponent_def L_def [symmetric])
  have m1: "1 \<le> scale2 a (- e)"
  proof (cases "e \<le> 0")
    case True
    have "1 * 1 \<le> a * 2 ^ nat (- e)"
      by (rule mult_mono) (use assms in simp_all)
    then show ?thesis using True by (simp add: scale2_def)
  next
    case False
    then have "nat e \<le> nat L" using e by simp
    then have "(2::real) ^ nat e \<le> 2 ^ nat L" by (rule power_increasing) simp
    with Llo have "2 ^ nat e \<le> a" by (rule order_trans [rotated])
    then show ?thesis using False by (simp add: scale2_def)
  qed
  then have fl: "1 \<le> \<lfloor>scale2 a (- e)\<rfloor>" by (simp only: le_floor_iff of_int_1)
  have z: "1 \<le> round_half_even (scale2 a (- e))"
    using fl round_half_even_ge_floor [of "scale2 a (- e)"] by (rule order_trans)
  then have "0 < (of_int (round_half_even (scale2 a (- e))) :: real)" by simp
  then have "0 < scale2 (of_int (round_half_even (scale2 a (- e)))) e"
    by (rule scale2_pos)
  then show ?thesis by (simp only: round_to_ulp_def Let_def e_def)
qed

lemma to_double_int:
  assumes "x \<in> \<int>" and "\<bar>x\<bar> < 2 ^ 53"
  shows "to_double x = Fin x"
proof (cases "x = 0")
  case True
  then show ?thesis by (simp add: to_double_def)
next
  case False
  from assms(1) obtain n where xn: "x = of_int n" by (auto elim: Ints_cases)
  have an: "\<bar>x\<bar> = of_int \<bar>n\<bar>" by (simp add: xn)
  have a1: "1 \<le> \<bar>x\<bar>" using False xn by simp
  have r: "round_to_ulp \<bar>x\<bar> = \<bar>x\<bar>"
    using an a1 assms(2) by (rule round_to_ulp_int)
  have small: "\<not> (2 ^ 1024 \<le> \<bar>x\<bar>)"
  proof -
    have "(2::real) ^ 53 \<le> 2 ^ 1024" by (rule power_increasing) simp_all
    with assms(2) show ?thesis by linarith
  qed
  show ?thesis using False small by (auto simp: to_double_def r Let_def)
qed

lemma to_double_sign:
  assumes "x = 0 \<or> 1 \<le> \<bar>x\<bar>"
  shows "js_gt (to_double x) (Fin 0) = (0 < x)"
proof (cases "x = 0")
  case True
  then show ?thesis by (simp add: to_double_def)
next
  case False
  with assms have "1 \<le> \<bar>x\<bar>" by simp
  from round_to_ulp_pos [OF this] False show ?thesis
    by (auto simp: to_double_def Let_def)
qed

text \<open>The sign of a difference of two integral values survives the rounding.\<close>

lemma js_sub_sign:
  assumes "x \<in> \<int>" and "y \<in> \<int>"
  shows "js_gt (js_sub (Fin x) (Fin y)) (Fin 0) = (y < x)"
proof -
  have "x - y \<in> \<int>" using assms by (rule Ints_diff)
  then obtain d where d: "x - y = of_int d" by (auto elim: Ints_cases)
  have "x - y = 0 \<or> 1 \<le> \<bar>x - y\<bar>"
  proof (cases "d = 0")
    case True
    then show ?thesis using d by simp
  next
    case False
    then have "1 \<le> \<bar>d\<bar>" by simp
    then have "(1::real) \<le> of_int \<bar>d\<bar>" by (simp only: of_int_1_le_iff)
    then show ?thesis using d by simp
  qed
  from to_double_sign [OF this] show ?thesis by (simp add: js_sub_def)
qed

section \<open>Properties of the reconciler\<close>

lemma gt_zero_truthy: "js_gt c (Fin 0) \<Longrightarrow> truthy_num c"
  by (cases c) auto

lemma foldl_sum_from:
  "foldl (\<lambda>acc it. js_add acc
            (getItemCalories (smi_kcalPer100g it) (smi_grams it) (smi_calories it))) s its
     = sum_from s its"
  by (induction its arbitrary: s) simp_all

text \<open>
  C1.  \<open>getItemCalories\<close> returns the rounded reported calories when they are greater than
  zero, and otherwise the rounded product of the energy density and the grams divided by one
  hundred; in particular it derives the calories of non-negative grams and density when the
  reported calories are zero.
\<close>

theorem getItemCalories_reconciles:
  "(js_gt calories (Fin 0) \<longrightarrow> getItemCalories kcalPer100g grams calories = Math_round calories)
   \<and> (\<not> js_gt calories (Fin 0) \<longrightarrow>
        getItemCalories kcalPer100g grams calories
          = Math_round (js_div (js_mul kcalPer100g grams) (Fin 100)))
   \<and> (js_le (Fin 0) grams \<and> js_le (Fin 0) kcalPer100g \<longrightarrow>
        getItemCalories kcalPer100g grams (Fin 0)
          = Math_round (js_div (js_mul kcalPer100g grams) (Fin 100)))"
  by (auto simp: getItemCalories_def dest: gt_zero_truthy)

theorem getItemCalories_reconciles_witness:
  "js_gt (Fin 250.5) (Fin 0)
   \<and> getItemCalories (Fin 130) (Fin 150) (Fin 250.5) = Fin 251
   \<and> \<not> js_gt (Fin (- 3)) (Fin 0)
   \<and> getItemCalories (Fin 130) (Fin 150) (Fin (- 3)) = Fin 195
   \<and> js_le (Fin 0) (Fin 150) \<and> js_le (Fin 0) (Fin 130)
   \<and> getItemCalories (Fin 130) (Fin 150) (Fin 0) = Fin 195"
  using getItemCalories_reconciles [of "Fin 250.5" "Fin 130" "Fin 150"]
        getItemCalories_reconciles [of "Fin (- 3)" "Fin 130" "Fin 150"]
  by (simp add: js_le_def to_double_int)

text \<open>
  C2.  \<open>getMealTotalCalories\<close> returns the rounded total of the meal when that total is
  greater than zero, whatever the items are, and otherwise the sum of the items' reconciled
  calories.
\<close>

theorem getMealTotalCalories_precedence:
  "(js_gt (sm_totalCalories meal) (Fin 0) \<longrightarrow>
      getMealTotalCalories meal = Math_round (sm_totalCalories meal))
   \<and> (\<not> js_gt (sm_totalCalories meal) (Fin 0) \<longrightarrow>
      getMealTotalCalories meal = sum_itemCalories (sm_items meal))"
  by (auto simp: getMealTotalCalories_def foldl_sum_from sum_itemCalories_def
           dest: gt_zero_truthy)

theorem getMealTotalCalories_precedence_witness:
  "js_gt (sm_totalCalories (lunch_meal (Fin 500) [rice, rice])) (Fin 0)
   \<and> sum_itemCalories (sm_items (lunch_meal (Fin 500) [rice, rice])) = Fin 390
   \<and> getMealTotalCalories (lunch_meal (Fin 500) [rice, rice]) = Fin 500
   \<and> \<not> js_gt (sm_totalCalories (lunch_meal (Fin 0) [rice, rice])) (Fin 0)
   \<and> getMealTotalCalories (lunch_meal (Fin 0) [rice, rice]) = Fin 390"
  using getMealTotalCalories_precedence [of "lunch_meal (Fin 500) [rice, rice]"]
        getMealTotalCalories_precedence [of "lunch_meal (Fin 0) [rice, rice]"]
  by (simp add: lunch_meal_def rice_def getItemCalories_def sum_itemCalories_def
        to_double_int)

section \<open>Properties of the payload normalizer\<close>

lemma lower_unit_ascii:
  "0x61 \<le> d \<Longrightarrow> d \<le> 0x7A \<Longrightarrow>
     (lower_unit c = d) = (c = d \<or> (0x41 \<le> c \<and> c \<le> 0x5A \<and> c + 0x20 = d))"
  by (auto simp: lower_unit_def)

lemma toLowerCase_matches:
  "\<forall>d\<in>set word. 0x61 \<le> d \<and> d \<le> 0x7A \<Longrightarrow>
     (toLowerCase raw = word) = matches_ignoring_case raw word"
proof (induction raw arbitrary: word)
  case Nil
  show ?case by (auto simp: toLowerCase_def matches_ignoring_case_def)
next
  case (Cons c raw)
  show ?case
  proof (cases word)
    case Nil
    then show ?thesis by (simp add: toLowerCase_def matches_ignoring_case_def)
  next
    case (Cons d word')
    with Cons.prems have d: "0x61 \<le> d" "d \<le> 0x7A"
      and rest: "\<forall>d\<in>set word'. 0x61 \<le> d \<and> d \<le> 0x7A" by auto
    have "(toLowerCase raw = word') = matches_ignoring_case raw word'"
      using Cons.IH [OF rest] .
    then show ?thesis
      using lower_unit_ascii [OF d, of c] Cons
      by (simp add: toLowerCase_def matches_ignoring_case_def)
  qed
qed

lemma vision_lowercase: "\<forall>d\<in>set (js ''vision''). 0x61 \<le> d \<and> d \<le> 0x7A"
  by (simp add: js_def)

lemma upper_VISION_matches: "toLowerCase (js ''VISION'') = js ''vision''"
  by (simp add: toLowerCase_def lower_unit_def js_def)

lemma normalizeSource_lower:
  "normalizeSource raw = (if toLowerCase raw = js ''vision'' then vision else manual)"
  using upper_VISION_matches by (auto simp: normalizeSource_def)

lemma MealType_name_inj: "MealType_name s = MealType_name t \<Longrightarrow> s = t"
  by (cases s; cases t) (simp_all add: js_def)

lemma normalizeMealType_lower:
  "normalizeMealType raw =
     (if toLowerCase raw = js ''breakfast'' then breakfast
      else if toLowerCase raw = js ''lunch'' then lunch
      else if toLowerCase raw = js ''snack'' then snack
      else if toLowerCase raw = js ''dinner'' then dinner
      else if toLowerCase raw = js ''supper'' then supper
      else other)"
  by (simp add: normalizeMealType_def)

lemma normalizeMealType_member:
  "toLowerCase raw = MealType_name t \<Longrightarrow> normalizeMealType raw = t"
  by (cases t) (simp_all add: normalizeMealType_lower js_def)

lemma normalizeMealType_default:
  "\<forall>t. toLowerCase raw \<noteq> MealType_name t \<Longrightarrow> normalizeMealType raw = other"
proof -
  assume h: "\<forall>t. toLowerCase raw \<noteq> MealType_name t"
  have "toLowerCase raw \<noteq> js ''breakfast''" using h [rule_format, of breakfast] by simp
  moreover have "toLowerCase raw \<noteq> js ''lunch''" using h [rule_format, of lunch] by simp
  moreover have "toLowerCase raw \<noteq> js ''snack''" using h [rule_format, of snack] by simp
  moreover have "toLowerCase raw \<noteq> js ''dinner''" using h [rule_format, of dinner] by simp
  moreover have "toLowerCase raw \<noteq> js ''supper''" using h [rule_format, of supper] by simp
  ultimately show ?thesis by (simp add: normalizeMealType_lower)
qed

text \<open>
  C9.  Enum normalization is total with safe defaults: \<open>normalizeSource\<close> gives \<open>vision\<close>
  exactly when the raw string matches \<open>vision\<close> case-insensitively and \<open>manual\<close> for any
  other string, the empty one included; \<open>normalizeMealType\<close> lower-cases the raw string and
  gives the member of the fixed set it spells, and \<open>other\<close> when it spells none.
\<close>

theorem enum_normalization_total:
  "(normalizeSource raw = vision \<longleftrightarrow> matches_ignoring_case raw (js ''vision''))
   \<and> (normalizeSource raw = manual \<longleftrightarrow> \<not> matches_ignoring_case raw (js ''vision''))
   \<and> normalizeSource [] = manual
   \<and> (\<forall>t. toLowerCase raw = MealType_name t \<longrightarrow> normalizeMealType raw = t)
   \<and> ((\<forall>t. toLowerCase raw \<noteq> MealType_name t) \<longrightarrow> normalizeMealType raw = other)"
proof -
  have m: "(toLowerCase raw = js ''vision'') = matches_ignoring_case raw (js ''vision'')"
    using toLowerCase_matches [OF vision_lowercase] .
  have e: "normalizeSource [] = manual"
    by (simp add: normalizeSource_def toLowerCase_def js_def)
  show ?thesis
    using m e normalizeMealType_member normalizeMealType_default
    by (auto simp: normalizeSource_lower)
qed

theorem enum_normalization_total_witness:
  "matches_ignoring_case (js ''Vision'') (js ''vision'')
   \<and> normalizeSource (js ''Vision'') = vision
   \<and> normalizeSource (js ''VISION'') = vision
   \<and> \<not> matches_ignoring_case (js ''xyz'') (js ''vision'')
   \<and> normalizeSource (js ''xyz'') = manual
   \<and> toLowerCase (js ''LUNCH'') = MealType_name lunch
   \<and> normalizeMealType (js ''LUNCH'') = lunch
   \<and> (\<forall>t. toLowerCase (js ''brunch'') \<noteq> MealType_name t)
   \<and> normalizeMealType (js ''brunch'') = other"
proof -
  have a: "matches_ignoring_case (js ''Vision'') (js ''vision'')"
    and b: "matches_ignoring_case (js ''VISION'') (js ''vision'')"
    and c: "\<not> matches_ignoring_case (js ''xyz'') (js ''vision'')"
    by (simp_all add: matches_ignoring_case_def js_def)
  have d: "toLowerCase (js ''LUNCH'') = MealType_name lunch"
    by (simp add: toLowerCase_def lower_unit_def js_def)
  have f: "\<forall>t. toLowerCase (js ''brunch'') \<noteq> MealType_name t"
  proof
    fix t show "toLowerCase (js ''brunch'') \<noteq> MealType_name t"
      by (cases t) (simp_all add: toLowerCase_def lower_unit_def js_def)
  qed
  show ?thesis
    using a b c d f
      enum_normalization_total [of "js ''Vision''"]
      enum_normalization_total [of "js ''VISION''"]
      enum_normalization_total [of "js ''xyz''"]
      enum_normalization_total [of "js ''LUNCH''"]
      enum_normalization_total [of "js ''brunch''"]
    by blast
qed

lemmas number_eval = Number_or_0_def StringToNumber_def js_def trim_def is_ws_def ws_units_def
  StrDecimalLiteral_def split_sign_def is_digit_def parse_exponent_def digits_value_def
  scale10_def

lemma Number_or_0_not_NaN: "Number_or_0 x \<noteq> NaN"
  by (cases "Number x") (auto simp: Number_or_0_def Let_def)

lemma Number_or_0_failure: "Number x = NaN \<Longrightarrow> Number_or_0 x = Fin 0"
  by (simp add: Number_or_0_def)

lemma Number_or_0_success: "Number x \<noteq> NaN \<Longrightarrow> Number_or_0 x = Number x"
  by (cases "Number x") (auto simp: Number_or_0_def Let_def)

text \<open>
  C4, as stated, fails for the confidence: it reaches the canonical item without numeric
  coercion, so a string stays a string, and \<open>null\<close> becomes \<open>undefined\<close>, not zero.
\<close>

theorem confidence_not_coerced:
  "\<not> is_number (smi_confidence (mapItemApi (inbound_item (JStr (js ''abc'')))))
   \<and> smi_confidence (mapItemApi (inbound_item (JStr (js ''abc'')))) = JStr (js ''abc'')
   \<and> smi_confidence (mapItemApi (inbound_item JNull)) = JUndefined"
  by (simp add: mapItemApi_def inbound_item_def nullish_or_def js_def)

text \<open>
  C4, amended.  The grams, the calories and the energy density of every inbound item pass
  through \<open>Number(x) || 0\<close>: a value that fails numeric conversion becomes zero, any other
  value becomes its number, and none of the three is ever \<open>NaN\<close>.  The confidence is not
  coerced: \<open>null\<close> and \<open>undefined\<close> become \<open>undefined\<close>, and any other value is carried
  over as it is.
\<close>

theorem numeric_fields_coerced:
  "is_number (JNum (smi_grams (mapItemApi it)))
   \<and> is_number (JNum (smi_kcalPer100g (mapItemApi it)))
   \<and> is_number (JNum (smi_calories (mapItemApi it)))
   \<and> (Number (mia_grams it) = NaN \<longrightarrow> smi_grams (mapItemApi it) = Fin 0)
   \<and> (Number (mia_caloriesPer100g it) = NaN \<longrightarrow> smi_kcalPer100g (mapItemApi it) = Fin 0)
   \<and> (Number (mia_calories it) = NaN \<longrightarrow> smi_calories (mapItemApi it) = Fin 0)
   \<and> (Number (mia_grams it) \<noteq> NaN \<longrightarrow> smi_grams (mapItemApi it) = Number (mia_grams it))
   \<and> (Number (mia_caloriesPer100g it) \<noteq> NaN \<longrightarrow>
        smi_kcalPer100g (mapItemApi it) = Number (mia_caloriesPer100g it))
   \<and> (Number (mia_calories it) \<noteq> NaN \<longrightarrow>
        smi_calories (mapItemApi it) = Number (mia_calories it))
   \<and> smi_confidence (mapItemApi it)
        = (if mia_confidence it = JNull \<or> mia_confidence it = JUndefined then JUndefined
           else mia_confidence it)"
  using Number_or_0_not_NaN Number_or_0_failure Number_or_0_success
  by (auto simp: mapItemApi_def nullish_or_def)

theorem numeric_fields_coerced_witness:
  "Number (mia_grams (inbound_item JNull)) = Fin 42.5
   \<and> smi_grams (mapItemApi (inbound_item JNull)) = Fin 42.5
   \<and> Number (mia_caloriesPer100g (inbound_item JNull)) = Fin 200
   \<and> smi_kcalPer100g (mapItemApi (inbound_item JNull)) = Fin 200
   \<and> Number (mia_calories (inbound_item JNull)) = NaN
   \<and> smi_calories (mapItemApi (inbound_item JNull)) = Fin 0
   \<and> Number JNull = Fin 0 \<and> Number JUndefined = NaN
   \<and> smi_confidence (mapItemApi (inbound_item JNull)) = JUndefined"
proof -
  have g: "Number (mia_grams (inbound_item JNull)) = Fin 42.5"
    by (simp add: inbound_item_def number_eval double_eval)
  have k: "Number (mia_caloriesPer100g (inbound_item JNull)) = Fin 200"
    by (simp add: inbound_item_def number_eval to_double_int)
  have c: "Number (mia_calories (inbound_item JNull)) = NaN"
    by (simp add: inbound_item_def number_eval)
  have n: "mia_confidence (inbound_item JNull) = JNull"
    by (simp add: inbound_item_def)
  show ?thesis
    using g k c n numeric_fields_coerced [of "inbound_item JNull"] by simp
qed

lemmas sample_eval = sample_lib_def api_meal_def js_def Date_toISOString_def nullish_or_def
  TimeClip_def

text \<open>
  C3, as stated, fails: with \<open>takenAt\<close> missing or unparsable, or \<open>createdAt\<close> present and
  unparsable, \<open>toISOString\<close> throws a \<open>RangeError\<close>; there is no fallback from \<open>takenAt\<close> to
  \<open>createdAt\<close>.
\<close>

theorem missing_takenAt_throws:
  "mapApiMealToSavedMeal None sample_lib
     (api_meal (js ''lunch'') (js ''m1'') JUndefined (JStr (js ''2024-01-01T12:00:00.000Z'')) None)
     = Inl RangeError
   \<and> mapApiMealToSavedMeal None sample_lib
     (api_meal (js ''lunch'') (js ''m1'') (JStr (js ''ontem'')) JUndefined None)
     = Inl RangeError
   \<and> mapApiMealToSavedMeal None sample_lib
     (api_meal (js ''lunch'') (js ''m1'') (JStr (js ''2024-01-01T12:00:00.000Z''))
        (JStr (js ''ontem'')) None)
     = Inl RangeError
   \<and> handleSaveMealClick sample_lib (js ''data:image/jpeg;base64,AAAA'')
     (api_meal lunch (js ''m1'') JUndefined (JStr (js ''2024-01-01T12:00:00.000Z'')) None)
     = Inl RangeError"
  by (simp add: mapApiMealToSavedMeal_def handleSaveMealClick_def sample_eval)

text \<open>
  C3, amended.  For every inbound meal record whose \<open>takenAt\<close> denotes a valid date and whose
  \<open>createdAt\<close> is absent or denotes a valid date, \<open>mapApiMealToSavedMeal\<close> returns a canonical
  meal without throwing, and so does the mapping of \<open>handleSaveMealClick\<close> when the items are
  present; \<open>dateTime\<close> is the ISO string of \<open>takenAt\<close>, and \<open>createdAt\<close> is the ISO string of
  \<open>createdAt\<close>, falling back to \<open>takenAt\<close> when \<open>createdAt\<close> is absent.
\<close>

theorem normalizer_total_on_valid_dates:
  "(dates_valid lib m \<longrightarrow>
      (\<exists>sm. mapApiMealToSavedMeal env lib m = Inr sm
            \<and> sm_dateTime sm = toISOString lib (the (new_Date lib (ma_takenAt m)))
            \<and> sm_createdAt sm = toISOString lib (the (new_Date lib (createdAt_source m)))))
   \<and> (dates_valid lib saved \<and> ma_items saved \<noteq> None \<longrightarrow>
      (\<exists>sm. handleSaveMealClick lib previewDataUrl saved = Inr sm
            \<and> sm_dateTime sm = toISOString lib (the (new_Date lib (ma_takenAt saved)))
            \<and> sm_createdAt sm = toISOString lib (the (new_Date lib (createdAt_source saved)))))"
  by (auto simp: dates_valid_def createdAt_source_def mapApiMealToSavedMeal_def
        handleSaveMealClick_def Date_toISOString_def nullish_or_def Let_def
        split: option.splits)

theorem normalizer_total_on_valid_dates_witness:
  "dates_valid sample_lib
     (api_meal (js ''lunch'') (js ''m1'') (JStr (js ''2024-01-01'')) JUndefined None)
   \<and> map_sum id sm_dateTime (mapApiMealToSavedMeal None sample_lib
        (api_meal (js ''lunch'') (js ''m1'') (JStr (js ''2024-01-01'')) JUndefined None))
      = Inr (js ''2024-01-01T00:00:00.000Z'')
   \<and> map_sum id sm_createdAt (mapApiMealToSavedMeal None sample_lib
        (api_meal (js ''lunch'') (js ''m1'') (JStr (js ''2024-01-01'')) JUndefined None))
      = Inr (js ''2024-01-01T00:00:00.000Z'')
   \<and> dates_valid sample_lib
     (api_meal lunch (js ''m1'') (JStr (js ''2024-01-01T12:00:00.000Z''))
        (JStr (js ''2024-01-02T08:30:00.000Z'')) None)
   \<and> ma_items (api_meal lunch (js ''m1'') (JStr (js ''2024-01-01T12:00:00.000Z''))
        (JStr (js ''2024-01-02T08:30:00.000Z'')) None) \<noteq> None
   \<and> map_sum id sm_createdAt (handleSaveMealClick sample_lib (js ''data:image/jpeg;base64,AAAA'')
        (api_meal lunch (js ''m1'') (JStr (js ''2024-01-01T12:00:00.000Z''))
           (JStr (js ''2024-01-02T08:30:00.000Z'')) None))
      = Inr (js ''2024-01-02T08:30:00.000Z'')"
proof -
  let ?m = "api_meal (js ''lunch'') (js ''m1'') (JStr (js ''2024-01-01'')) JUndefined None"
  let ?s = "api_meal lunch (js ''m1'') (JStr (js ''2024-01-01T12:00:00.000Z''))
              (JStr (js ''2024-01-02T08:30:00.000Z'')) None"
  have vm: "dates_valid sample_lib ?m"
    by (simp add: dates_valid_def sample_eval)
  have vs: "dates_valid sample_lib ?s"
    by (simp add: dates_valid_def sample_eval)
  have its: "ma_items ?s \<noteq> None"
    by (simp add: api_meal_def)
  have tm: "toISOString sample_lib (the (new_Date sample_lib (ma_takenAt ?m)))
              = js ''2024-01-01T00:00:00.000Z''"
    and cm: "toISOString sample_lib (the (new_Date sample_lib (createdAt_source ?m)))
              = js ''2024-01-01T00:00:00.000Z''"
    and cs: "toISOString sample_lib (the (new_Date sample_lib (createdAt_source ?s)))
              = js ''2024-01-02T08:30:00.000Z''"
    by (simp_all add: createdAt_source_def sample_eval)
  from normalizer_total_on_valid_dates [of sample_lib ?m None ?s "js ''data:image/jpeg;base64,AAAA''"]
    vm vs its
  obtain sm1 sm2 where
    "mapApiMealToSavedMeal None sample_lib ?m = Inr sm1"
    "sm_dateTime sm1 = toISOString sample_lib (the (new_Date sample_lib (ma_takenAt ?m)))"
    "sm_createdAt sm1 = toISOString sample_lib (the (new_Date sample_lib (createdAt_source ?m)))"
    "handleSaveMealClick sample_lib (js ''data:image/jpeg;base64,AAAA'') ?s = Inr sm2"
    "sm_createdAt sm2 = toISOString sample_lib (the (new_Date sample_lib (createdAt_source ?s)))"
    by blast
  with vm vs its tm cm cs show ?thesis by simp
qed

lemma mapApiMealToSavedMeal_photoUrl:
  "mapApiMealToSavedMeal env lib m = Inr sm \<Longrightarrow>
     sm_photoUrl sm =
       (case ma_imagePath m of
          None \<Rightarrow> None
        | Some p \<Rightarrow> if p = [] then None else Some (API_BASE_URL env @ p))
     \<and> sm_photoUrl sm \<noteq> Some []"
  by (auto simp: mapApiMealToSavedMeal_def Let_def split: sum.splits option.splits)

text \<open>
  C5.  The photo URL is the image path prefixed with the base URL exactly when the path is
  present and not empty, in both paths.  The history path does so (lemma above); the save
  path hands the relative path on without the prefix, and an empty path as an empty URL.
\<close>

theorem save_response_photoUrl_unprefixed:
  "map_sum id sm_photoUrl (handleSaveMealClick sample_lib (js ''data:image/jpeg;base64,AAAA'')
      (api_meal lunch (js ''m1'') (JStr (js ''2024-01-01T12:00:00.000Z'')) JUndefined
         (Some (js ''/uploads/m1.jpg''))))
     = Inr (Some (js ''/uploads/m1.jpg''))
   \<and> map_sum id sm_photoUrl (handleSaveMealClick sample_lib (js ''data:image/jpeg;base64,AAAA'')
      (api_meal lunch (js ''m1'') (JStr (js ''2024-01-01T12:00:00.000Z'')) JUndefined (Some [])))
     = Inr (Some [])
   \<and> map_sum id sm_photoUrl (mapApiMealToSavedMeal None sample_lib
      (api_meal (js ''lunch'') (js ''m1'') (JStr (js ''2024-01-01T12:00:00.000Z'')) JUndefined
         (Some (js ''/uploads/m1.jpg''))))
     = Inr (Some (js ''http://localhost:3000/uploads/m1.jpg''))
   \<and> map_sum id sm_photoUrl (mapApiMealToSavedMeal None sample_lib
      (api_meal (js ''lunch'') (js ''m1'') (JStr (js ''2024-01-01T12:00:00.000Z'')) JUndefined
         (Some [])))
     = Inr None"
  by (simp add: mapApiMealToSavedMeal_def handleSaveMealClick_def API_BASE_URL_def sample_eval)

section \<open>Properties of the history list\<close>

lemma sort_insert_insort_key:
  fixes f :: "'a \<Rightarrow> real"
  shows "\<forall>y\<in>set ys. js_gt (cmp x y) (Fin 0) = (f y < f x) \<Longrightarrow>
           sort_insert cmp x ys = insort_key f x ys"
  by (induction ys) auto

lemma Array_sort_sort_key:
  fixes f :: "'a \<Rightarrow> real"
  shows "\<forall>x\<in>set xs. \<forall>y\<in>set xs. js_gt (cmp x y) (Fin 0) = (f y < f x) \<Longrightarrow>
           Array_sort cmp xs = sort_key f xs"
proof (induction xs)
  case Nil
  show ?case by (simp add: Array_sort_def sort_key_def)
next
  case (Cons x xs)
  then have ih: "Array_sort cmp xs = sort_key f xs" by simp
  have "\<forall>y\<in>set (sort_key f xs). js_gt (cmp x y) (Fin 0) = (f y < f x)"
    using Cons.prems by simp
  then have "sort_insert cmp x (sort_key f xs) = insort_key f x (sort_key f xs)"
    by (rule sort_insert_insort_key)
  then show ?case using ih by (simp add: Array_sort_def sort_key_def)
qed

lemma map_throwing_Inr:
  "map_throwing f xs = Inr ys \<Longrightarrow> \<forall>y\<in>set ys. \<exists>x\<in>set xs. f x = Inr y"
  by (induction xs arbitrary: ys) (auto split: sum.splits)

lemma mapApiMealToSavedMeal_dateTime:
  "mapApiMealToSavedMeal env lib m = Inr sm \<Longrightarrow>
     \<exists>t. new_Date lib (ma_takenAt m) = Some t \<and> sm_dateTime sm = toISOString lib t"
  by (auto simp: mapApiMealToSavedMeal_def Date_toISOString_def Let_def
           split: option.splits sum.splits)

lemma mapped_effectiveDate:
  assumes "mapApiMealToSavedMeal env lib m = Inr sm" and "date_roundtrip lib m"
  shows "\<exists>t. effectiveDate lib sm = Fin (of_int t)"
proof -
  from assms(1) obtain t where t: "new_Date lib (ma_takenAt m) = Some t"
    and d: "sm_dateTime sm = toISOString lib t"
    using mapApiMealToSavedMeal_dateTime by blast
  from assms(2) t have "toISOString lib t \<noteq> []" "Date_parse lib (toISOString lib t) = Some t"
    by (auto simp: date_roundtrip_def)
  with d have "effectiveDate lib sm = Fin (of_int t)"
    by (simp add: effectiveDate_def getTime_def)
  then show ?thesis by blast
qed

lemma all_mapped_effectiveDate:
  assumes "map_throwing (mapApiMealToSavedMeal env lib) data = Inr mapped"
    and "\<forall>m\<in>set data. date_roundtrip lib m"
  shows "\<forall>sm\<in>set mapped. \<exists>t. effectiveDate lib sm = Fin (of_int t)"
proof
  fix sm assume "sm \<in> set mapped"
  with map_throwing_Inr [OF assms(1)]
  obtain m where "m \<in> set data" "mapApiMealToSavedMeal env lib m = Inr sm"
    by blast
  with assms(2) show "\<exists>t. effectiveDate lib sm = Fin (of_int t)"
    using mapped_effectiveDate by blast
qed

lemma sorted_by_effectiveDate:
  assumes fin: "\<forall>sm\<in>set mapped. \<exists>t. effectiveDate lib sm = Fin (of_int t)"
  shows "sorted_wrt (\<lambda>a b. js_le (effectiveDate lib b) (effectiveDate lib a))
           (Array_sort (compareMeals lib) mapped)"
    and "filter (\<lambda>m. effectiveDate lib m = v) (Array_sort (compareMeals lib) mapped)
           = filter (\<lambda>m. effectiveDate lib m = v) mapped"
    and "length (Array_sort (compareMeals lib) mapped) = length mapped"
proof -
  let ?k = "sort_key_of lib"
  have eff: "\<forall>sm\<in>set mapped. effectiveDate lib sm = Fin (- ?k sm)"
    using fin by (auto simp: sort_key_of_def)
  have ints: "\<forall>sm\<in>set mapped. - ?k sm \<in> \<int>"
    using fin by (auto simp: sort_key_of_def)
  have cmp: "\<forall>x\<in>set mapped. \<forall>y\<in>set mapped.
               js_gt (compareMeals lib x y) (Fin 0) = (?k y < ?k x)"
    using eff ints by (auto simp: compareMeals_def js_sub_sign)
  have sort: "Array_sort (compareMeals lib) mapped = sort_key ?k mapped"
    using cmp by (rule Array_sort_sort_key)
  have "sorted (map ?k (sort_key ?k mapped))" by (rule sorted_sort_key)
  then have "sorted_wrt (\<lambda>a b. ?k a \<le> ?k b) (sort_key ?k mapped)"
    by (simp add: sorted_map)
  then have "sorted_wrt (\<lambda>a b. js_le (effectiveDate lib b) (effectiveDate lib a))
               (sort_key ?k mapped)"
  proof (rule sorted_wrt_mono_rel [rotated])
    fix a b assume "a \<in> set (sort_key ?k mapped)" "b \<in> set (sort_key ?k mapped)"
      and "?k a \<le> ?k b"
    then show "js_le (effectiveDate lib b) (effectiveDate lib a)"
      using eff by (auto simp: js_le_def)
  qed
  then show "sorted_wrt (\<lambda>a b. js_le (effectiveDate lib b) (effectiveDate lib a))
               (Array_sort (compareMeals lib) mapped)"
    by (simp add: sort)
  show "length (Array_sort (compareMeals lib) mapped) = length mapped"
    by (simp add: sort)
  show "filter (\<lambda>m. effectiveDate lib m = v) (Array_sort (compareMeals lib) mapped)
          = filter (\<lambda>m. effectiveDate lib m = v) mapped"
  proof (cases "\<exists>x. v = Fin x")
    case True
    then obtain x where v: "v = Fin x" by blast
    have a: "filter (\<lambda>m. effectiveDate lib m = v) (sort_key ?k mapped)
               = filter (\<lambda>m. ?k m = - x) (sort_key ?k mapped)"
      by (rule filter_cong) (use eff v in auto)
    have b: "filter (\<lambda>m. effectiveDate lib m = v) mapped = filter (\<lambda>m. ?k m = - x) mapped"
      by (rule filter_cong) (use eff v in auto)
    show ?thesis by (simp add: sort a b sort_key_stable)
  next
    case False
    then have n: "\<forall>sm\<in>set mapped. effectiveDate lib sm \<noteq> v" using eff by auto
    have "filter (\<lambda>m. effectiveDate lib m = v) (sort_key ?k mapped) = []"
      using n by (simp add: filter_empty_conv)
    moreover have "filter (\<lambda>m. effectiveDate lib m = v) mapped = []"
      using n by (simp add: filter_empty_conv)
    ultimately show ?thesis by (simp add: sort)
  qed
qed

text \<open>
  C7.  After \<open>loadMealsByDay\<close> has mapped and sorted the inbound records, the history list is
  in non-increasing order of effective date (the date of \<open>dateTime\<close>, or of \<open>createdAt\<close> when
  \<open>dateTime\<close> is empty), and meals of equal effective date keep their input order.  The
  engine is assumed to read back the ISO strings it prints for the records' dates.
\<close>

theorem loadMealsByDay_sorted_descending:
  assumes "\<forall>m\<in>set data. date_roundtrip lib m"
  shows "sorted_wrt (\<lambda>a b. js_le (effectiveDate lib b) (effectiveDate lib a))
           (hs_meals (loadMealsByDay env lib data))
         \<and> (\<forall>mapped. map_throwing (mapApiMealToSavedMeal env lib) data = Inr mapped \<longrightarrow>
               length (hs_meals (loadMealsByDay env lib data)) = length mapped
               \<and> (\<forall>v. filter (\<lambda>m. effectiveDate lib m = v) (hs_meals (loadMealsByDay env lib data))
                        = filter (\<lambda>m. effectiveDate lib m = v) mapped))"
proof (cases "map_throwing (mapApiMealToSavedMeal env lib) data")
  case (Inl e)
  then show ?thesis by (simp add: loadMealsByDay_def)
next
  case (Inr mapped)
  have fin: "\<forall>sm\<in>set mapped. \<exists>t. effectiveDate lib sm = Fin (of_int t)"
    using all_mapped_effectiveDate [OF Inr assms] .
  show ?thesis
    using sorted_by_effectiveDate [OF fin] Inr by (simp add: loadMealsByDay_def)
qed

theorem loadMealsByDay_sorted_descending_witness:
  "map sm_id (hs_meals (loadMealsByDay None sample_lib day_response))
       = [js ''m2'', js ''m1'', js ''m3'']
   \<and> map (effectiveDate sample_lib) (hs_meals (loadMealsByDay None sample_lib day_response))
       = [Fin 1704184200000, Fin 1704110400000, Fin 1704110400000]
   \<and> sorted_wrt (\<lambda>a b. js_le (effectiveDate sample_lib b) (effectiveDate sample_lib a))
        (hs_meals (loadMealsByDay None sample_lib day_response))"
proof -
  have rt: "\<forall>m\<in>set day_response. date_roundtrip sample_lib m"
    by (simp add: day_response_def date_roundtrip_def sample_eval)
  have ids: "map sm_id (hs_meals (loadMealsByDay None sample_lib day_response))
       = [js ''m2'', js ''m1'', js ''m3'']"
    by (simp add: loadMealsByDay_def day_response_def mapApiMealToSavedMeal_def Array_sort_def
          compareMeals_def effectiveDate_def getTime_def js_sub_sign sample_eval)
  have effs: "map (effectiveDate sample_lib) (hs_meals (loadMealsByDay None sample_lib day_response))
       = [Fin 1704184200000, Fin 1704110400000, Fin 1704110400000]"
    by (simp add: loadMealsByDay_def day_response_def mapApiMealToSavedMeal_def Array_sort_def
          compareMeals_def effectiveDate_def getTime_def js_sub_sign sample_eval)
  show ?thesis
    using ids effs loadMealsByDay_sorted_descending [OF rt, of None] by simp
qed

section \<open>Properties of the food reference search\<close>

lemma starts_with_iff: "starts_with xs q = (\<exists>ss. xs = q @ ss)"
  by (induction xs q rule: starts_with.induct) auto

lemma includes_str_iff: "includes_str hay q = (\<exists>ps ss. hay = ps @ q @ ss)"
proof (induction hay)
  case Nil
  show ?case by auto
next
  case (Cons x xs)
  have "(\<exists>ps ss. x # xs = ps @ q @ ss)
          = ((\<exists>ss. x # xs = q @ ss) \<or> (\<exists>ps ss. xs = ps @ q @ ss))"
  proof
    assume "\<exists>ps ss. x # xs = ps @ q @ ss"
    then obtain ps ss where e: "x # xs = ps @ q @ ss" by blast
    show "(\<exists>ss. x # xs = q @ ss) \<or> (\<exists>ps ss. xs = ps @ q @ ss)"
    proof (cases ps)
      case Nil
      with e show ?thesis by auto
    next
      case (Cons p ps')
      with e have "xs = ps' @ q @ ss" by simp
      then show ?thesis by blast
    qed
  next
    assume "(\<exists>ss. x # xs = q @ ss) \<or> (\<exists>ps ss. xs = ps @ q @ ss)"
    then show "\<exists>ps ss. x # xs = ps @ q @ ss"
    proof
      assume "\<exists>ss. x # xs = q @ ss"
      then obtain ss where "x # xs = [] @ q @ ss" by auto
      then show ?thesis by blast
    next
      assume "\<exists>ps ss. xs = ps @ q @ ss"
      then obtain ps ss where "x # xs = (x # ps) @ q @ ss" by auto
      then show ?thesis by blast
    qed
  qed
  then show ?case using Cons.IH by (simp add: starts_with_iff)
qed

lemma filteredFoods_loop_take:
  "length out < 50 \<Longrightarrow>
     filteredFoods_loop q rest out
       = take 50 (out @ filter (\<lambda>a. includes_str (normalizeSearch (al_description a)) q) rest)"
proof (induction rest arbitrary: out)
  case Nil
  then show ?case by simp
next
  case (Cons a rest)
  show ?case
  proof (cases "includes_str (normalizeSearch (al_description a)) q")
    case False
    then show ?thesis using Cons.prems Cons.IH [OF Cons.prems] by (simp add: Let_def)
  next
    case True
    show ?thesis
    proof (cases "length out = 49")
      case True
      with \<open>includes_str (normalizeSearch (al_description a)) q\<close>
      show ?thesis by (simp add: Let_def)
    next
      case False
      with Cons.prems have "length (out @ [a]) < 50" by simp
      from Cons.IH [OF this] True Cons.prems False show ?thesis by (simp add: Let_def)
    qed
  qed
qed

lemma trim_empty_all_ws: "trim s = [] \<Longrightarrow> \<forall>c\<in>set s. is_ws c"
proof -
  assume "trim s = []"
  then have all: "\<forall>c\<in>set (dropWhile is_ws s). is_ws c"
    by (simp add: trim_def dropWhile_eq_Nil_conv)
  have "dropWhile is_ws s = []"
  proof (rule ccontr)
    assume ne: "dropWhile is_ws s \<noteq> []"
    then have "\<not> is_ws (hd (dropWhile is_ws s))" by (rule hd_dropWhile)
    moreover have "hd (dropWhile is_ws s) \<in> set (dropWhile is_ws s)" using ne by simp
    ultimately show False using all by blast
  qed
  then show ?thesis by (simp add: dropWhile_eq_Nil_conv)
qed

lemma includes_str_Nil: "includes_str hay []"
  by (cases hay) simp_all

lemma ws_cases:
  "is_ws c \<Longrightarrow> c \<in> {0x9, 0xA, 0xB, 0xC, 0xD, 0x20, 0xA0} \<or> 0x1680 \<le> c"
  by (auto simp: is_ws_def ws_units_def)

lemma ws_lower_unit: "is_ws c \<Longrightarrow> lower_unit c = c"
  by (drule ws_cases) (auto simp: lower_unit_def)

lemma nfd_unit_outside: "c < 0xC0 \<or> 0xFF < c \<Longrightarrow> nfd_unit c = [c]"
proof -
  assume r: "c < 0xC0 \<or> 0xFF < c"
  have "\<forall>k\<in>fst ` set nfd_table. 0xC0 \<le> k \<and> k \<le> 0xFF"
    by (simp add: nfd_table_def)
  with r have "c \<notin> fst ` set nfd_table" by auto
  then have "map_of nfd_table c = None" by (simp add: map_of_eq_None_iff)
  then show ?thesis by (simp add: nfd_unit_def)
qed

lemma ws_nfd_unit: "is_ws c \<Longrightarrow> nfd_unit c = [c]"
  by (drule ws_cases, rule nfd_unit_outside) auto

lemma ws_not_mark: "is_ws c \<Longrightarrow> \<not> (0x300 \<le> c \<and> c \<le> 0x36F)"
  by (auto simp: is_ws_def ws_units_def)

lemma ws_normalized:
  "\<forall>c\<in>set s. is_ws c \<Longrightarrow> strip_marks (normalizeNFD (toLowerCase s)) = s"
proof (induction s)
  case Nil
  show ?case by (simp add: strip_marks_def normalizeNFD_def toLowerCase_def)
next
  case (Cons c s)
  then have c: "is_ws c" and ih: "strip_marks (normalizeNFD (toLowerCase s)) = s" by auto
  show ?case
    using ih ws_lower_unit [OF c] ws_nfd_unit [OF c] ws_not_mark [OF c]
    by (simp add: strip_marks_def normalizeNFD_def toLowerCase_def)
qed

lemma trim_empty_normalizeSearch: "trim foodQuery = [] \<Longrightarrow> normalizeSearch foodQuery = []"
  using trim_empty_all_ws [of foodQuery] by (simp add: normalizeSearch_def ws_normalized)

text \<open>
  C6, as stated, fails: a query that is not empty after trimming but normalizes to the
  empty string (a lone combining mark) gets the first 30 entries, not the first 50 matches.
\<close>

theorem combining_mark_query_browses:
  "trim [0x301] \<noteq> []
   \<and> filteredFoods (replicate 31 pao_de_queijo) [0x301] = replicate 30 pao_de_queijo
   \<and> take 50 (filter (entry_matches [0x301]) (replicate 31 pao_de_queijo))
       = replicate 31 pao_de_queijo"
proof -
  have n: "normalizeSearch [0x301] = []"
    by (simp add: normalizeSearch_def toLowerCase_def lower_unit_def normalizeNFD_def
          nfd_unit_def nfd_table_def strip_marks_def trim_def)
  have t: "trim [0x301] \<noteq> []"
    by (simp add: trim_def is_ws_def ws_units_def)
  have m: "entry_matches [0x301] pao_de_queijo"
    by (simp add: entry_matches_def n includes_str_Nil)
  show ?thesis using t m by (simp add: filteredFoods_def n)
qed

text \<open>
  C6, amended.  \<open>filteredFoods\<close> returns the first 30 entries in table order when the
  normalized query is empty, as it is when the query is empty after trimming; otherwise it
  returns the entries whose normalized description contains the normalized query as a
  contiguous run, in table order, cut to the first 50 matches.
\<close>

theorem filteredFoods_search:
  "(normalizeSearch foodQuery = [] \<longrightarrow> filteredFoods alimentos foodQuery = take 30 alimentos)
   \<and> (trim foodQuery = [] \<longrightarrow> filteredFoods alimentos foodQuery = take 30 alimentos)
   \<and> (normalizeSearch foodQuery \<noteq> [] \<longrightarrow>
        filteredFoods alimentos foodQuery
          = take 50 (filter (entry_matches foodQuery) alimentos))
   \<and> (entry_matches foodQuery a \<longleftrightarrow>
        (\<exists>ps ss. normalizeSearch (al_description a) = ps @ normalizeSearch foodQuery @ ss))"
proof -
  have "filteredFoods_loop (normalizeSearch foodQuery) alimentos []
          = take 50 (filter (entry_matches foodQuery) alimentos)"
    using filteredFoods_loop_take [of "[]" "normalizeSearch foodQuery" alimentos]
    by (simp add: entry_matches_def [abs_def])
  then show ?thesis
    using trim_empty_normalizeSearch [of foodQuery]
    by (auto simp: filteredFoods_def Let_def entry_matches_def includes_str_iff)
qed

lemmas search_eval = normalizeSearch_def toLowerCase_def lower_unit_def normalizeNFD_def
  nfd_unit_def nfd_table_def strip_marks_def trim_def is_ws_def ws_units_def js_def

theorem filteredFoods_search_witness:
  "normalizeSearch (js ''  '') = [] \<and> trim (js ''  '') = []
   \<and> filteredFoods (replicate 40 arroz_cozido) (js ''  '') = replicate 30 arroz_cozido
   \<and> normalizeSearch (js ''pao'') \<noteq> []
   \<and> entry_matches (js ''pao'') pao_de_queijo
   \<and> filteredFoods [arroz_cozido, pao_de_queijo, arroz_cozido] (js ''pao'') = [pao_de_queijo]
   \<and> normalizeSearch (js ''a'') \<noteq> []
   \<and> filteredFoods (replicate 1000 arroz_cozido) (js ''a'') = replicate 50 arroz_cozido"
proof -
  have e: "normalizeSearch (js ''  '') = []" "trim (js ''  '') = []"
    by (simp_all add: search_eval)
  have q: "normalizeSearch (js ''pao'') = js ''pao''" "normalizeSearch (js ''a'') = js ''a''"
    by (simp_all add: search_eval)
  have ne: "normalizeSearch (js ''pao'') \<noteq> []" "normalizeSearch (js ''a'') \<noteq> []"
    by (simp_all add: q) (simp_all add: js_def)
  have d: "normalizeSearch (al_description pao_de_queijo) = js ''pao de queijo''"
    "normalizeSearch (al_description arroz_cozido) = js ''arroz, tipo 1, cozido''"
    by (simp_all add: pao_de_queijo_def arroz_cozido_def search_eval)
  have m: "entry_matches (js ''pao'') pao_de_queijo"
    "\<not> entry_matches (js ''pao'') arroz_cozido"
    "entry_matches (js ''a'') arroz_cozido"
    by (simp_all add: entry_matches_def q d) (simp_all add: js_def)
  show ?thesis
    using e ne m
      filteredFoods_search [of "js ''  ''" "replicate 40 arroz_cozido"]
      filteredFoods_search [of "js ''pao''" "[arroz_cozido, pao_de_queijo, arroz_cozido]"]
      filteredFoods_search [of "js ''a''" "replicate 1000 arroz_cozido"]
    by simp
qed

section \<open>Properties of the working item list\<close>

lemma round_times_100_div_100:
  "within_exact_range c \<Longrightarrow>
     Math_round (js_div (js_mul (Math_round c) (Fin 100)) (Fin 100)) = Math_round c"
proof (cases c)
  case (Fin x)
  assume "within_exact_range c"
  with Fin have b: "\<bar>real_of_int \<lfloor>x + 1 / 2\<rfloor>\<bar> * 100 < 2 ^ 53"
    by (simp add: within_exact_range_def)
  define k where "k = \<lfloor>x + 1 / 2\<rfloor>"
  have b': "\<bar>real_of_int k\<bar> * 100 < 2 ^ 53" using b by (simp only: k_def)
  have m: "to_double (of_int k * 100) = Fin (of_int k * 100)"
  proof (rule to_double_int)
    show "real_of_int k * 100 \<in> \<int>" by simp
    show "\<bar>real_of_int k * 100\<bar> < 2 ^ 53" using b' by (simp add: abs_mult)
  qed
  have d: "to_double (of_int k) = Fin (of_int k)"
  proof (rule to_double_int)
    show "real_of_int k \<in> \<int>" by simp
    have "\<bar>real_of_int k\<bar> \<le> \<bar>real_of_int k\<bar> * 100" by simp
    with b' show "\<bar>real_of_int k\<bar> < 2 ^ 53" by linarith
  qed
  show ?thesis using Fin m d by (simp add: k_def [symmetric])
qed (simp_all add: inf_of_sign_def)

lemma handleAnalyze_nth:
  "i < length itens \<Longrightarrow>
     handleAnalyze itens ! i =
       \<lparr> fi_id = js ''vision-'' @ show_nat i,
         fi_nome = bi_nome (itens ! i),
         fi_quantidadeGramas = Fin 100,
         fi_kcalPor100g = Math_round (bi_caloriasPorPorcao (itens ! i)),
         fi_confianca = Some (bi_confianca (itens ! i)),
         fi_origem = vision \<rparr>"
  by (simp add: handleAnalyze_def nth_enumerate_eq)

text \<open>
  C10, as stated, fails: the displayed calories are \<open>round(density * 100 / 100)\<close> in
  double arithmetic, and for a density of 5925909257642672 the product is between two
  doubles and rounds up, so that the display is 5925909257642673.
\<close>

theorem huge_density_display_differs:
  "Math_round (bi_caloriasPorPorcao huge_backend_item) = Fin 5925909257642672
   \<and> fi_quantidadeGramas (handleAnalyze [huge_backend_item] ! 0) = Fin 100
   \<and> fi_kcalPor100g (handleAnalyze [huge_backend_item] ! 0) = Fin 5925909257642672
   \<and> calcItemCalories (handleAnalyze [huge_backend_item] ! 0) = Fin 5925909257642673"
proof -
  have p: "to_double (5925909257642672 * 100) = Fin 592590925764267264"
    by (simp add: double_eval)
  have q: "to_double (592590925764267264 / 100) = Fin 5925909257642673"
    by (simp add: double_eval)
  have r: "Math_round (bi_caloriasPorPorcao huge_backend_item) = Fin 5925909257642672"
    by (simp add: huge_backend_item_def)
  have h: "handleAnalyze [huge_backend_item] ! 0 =
       \<lparr> fi_id = js ''vision-'' @ show_nat 0,
         fi_nome = js ''arroz'',
         fi_quantidadeGramas = Fin 100,
         fi_kcalPor100g = Fin 5925909257642672,
         fi_confianca = Some (Fin 0.875),
         fi_origem = vision \<rparr>"
    using handleAnalyze_nth [of 0 "[huge_backend_item]"] by (simp add: huge_backend_item_def)
  have c: "calcItemCalories (handleAnalyze [huge_backend_item] ! 0) = Fin 5925909257642673"
    by (simp only: h calcItemCalories_def FoodItemUI.simps js_mul.simps js_div.simps p q)
       simp
  show ?thesis using r h c by simp
qed

text \<open>
  C10, amended.  Every item built from a vision response has 100 grams, the server's
  \<open>caloriasPorPorcao\<close> rounded to the nearest integer as its energy density, the source
  \<open>vision\<close> and the server's confidence; its displayed calories are that rounded value
  whenever the rounded value times one hundred stays below \<open>2 ^ 53\<close>.
\<close>

theorem handleAnalyze_defaults:
  "length (handleAnalyze itens) = length itens
   \<and> (\<forall>i<length itens.
        fi_quantidadeGramas (handleAnalyze itens ! i) = Fin 100
        \<and> fi_kcalPor100g (handleAnalyze itens ! i) = Math_round (bi_caloriasPorPorcao (itens ! i))
        \<and> fi_origem (handleAnalyze itens ! i) = vision
        \<and> fi_confianca (handleAnalyze itens ! i) = Some (bi_confianca (itens ! i))
        \<and> (within_exact_range (bi_caloriasPorPorcao (itens ! i)) \<longrightarrow>
             calcItemCalories (handleAnalyze itens ! i)
               = Math_round (bi_caloriasPorPorcao (itens ! i))))"
proof -
  have "length (handleAnalyze itens) = length itens"
    by (simp add: handleAnalyze_def)
  moreover have "\<forall>i<length itens.
        fi_quantidadeGramas (handleAnalyze itens ! i) = Fin 100
        \<and> fi_kcalPor100g (handleAnalyze itens ! i) = Math_round (bi_caloriasPorPorcao (itens ! i))
        \<and> fi_origem (handleAnalyze itens ! i) = vision
        \<and> fi_confianca (handleAnalyze itens ! i) = Some (bi_confianca (itens ! i))
        \<and> (within_exact_range (bi_caloriasPorPorcao (itens ! i)) \<longrightarrow>
             calcItemCalories (handleAnalyze itens ! i)
               = Math_round (bi_caloriasPorPorcao (itens ! i)))"
    by (simp add: handleAnalyze_nth calcItemCalories_def round_times_100_div_100)
  ultimately show ?thesis by blast
qed

theorem handleAnalyze_defaults_witness:
  "(0::nat) < length [sample_backend_item]
   \<and> within_exact_range (bi_caloriasPorPorcao ([sample_backend_item] ! 0))
   \<and> fi_quantidadeGramas (handleAnalyze [sample_backend_item] ! 0) = Fin 100
   \<and> fi_kcalPor100g (handleAnalyze [sample_backend_item] ! 0) = Fin 130
   \<and> fi_confianca (handleAnalyze [sample_backend_item] ! 0) = Some (Fin 0.875)
   \<and> calcItemCalories (handleAnalyze [sample_backend_item] ! 0) = Fin 130"
proof -
  have w: "within_exact_range (bi_caloriasPorPorcao ([sample_backend_item] ! 0))"
    by (simp add: within_exact_range_def sample_backend_item_def)
  show ?thesis
    using w handleAnalyze_defaults [of "[sample_backend_item]"]
    by (simp add: sample_backend_item_def)
qed

lemma handleAnalyze_grams_positive: "list_all grams_positive (handleAnalyze itens)"
  by (simp add: handleAnalyze_def list_all_iff grams_positive_def split_beta)

lemma addSelectedFoodToMeal_grams_positive:
  "list_all grams_positive (as_items s) \<Longrightarrow>
     list_all grams_positive (as_items (addSelectedFoodToMeal now s))"
  by (auto simp: addSelectedFoodToMeal_def Let_def grams_positive_def
           split: option.splits)

lemma updateItemQuantity_grams_positive:
  "js_gt grams (Fin 0) \<Longrightarrow> list_all grams_positive prev \<Longrightarrow>
     list_all grams_positive (updateItemQuantity ident grams prev)"
  by (auto simp: updateItemQuantity_def list_all_iff grams_positive_def)

text \<open>
  C8.  Every item of the working list has grams greater than zero.  Creation from a vision
  response and from the reference table keep that (lemmas above); an edit of the grams does
  not: clearing the field stores zero grams, and a negative number is stored as typed.
\<close>

theorem updateItemQuantity_admits_zero_grams:
  "list_all grams_positive (handleAnalyze [sample_backend_item])
   \<and> onChange_quantidade (js ''vision-0'') [] (handleAnalyze [sample_backend_item])
       = [\<lparr> fi_id = js ''vision-0'', fi_nome = js ''arroz'', fi_quantidadeGramas = Fin 0,
            fi_kcalPor100g = Fin 130, fi_confianca = Some (Fin 0.875), fi_origem = vision \<rparr>]
   \<and> \<not> list_all grams_positive
         (onChange_quantidade (js ''vision-0'') [] (handleAnalyze [sample_backend_item]))
   \<and> \<not> list_all grams_positive
         (updateItemQuantity (js ''vision-0'') (Fin (- 5)) (handleAnalyze [sample_backend_item]))"
  by (simp add: handleAnalyze_def sample_backend_item_def onChange_quantidade_def
        updateItemQuantity_def grams_positive_def Number_or_0_def StringToNumber_def trim_def
        js_def show_nat.simps)

end
